theory Spec2Isabelle
  imports Complex_Main
begin

section \<open>Particle Cosmos: the particle and force-field core of \<open>muay.py\<close>\<close>

text \<open>
  The simulation core of \<open>muay.py\<close> consists of the classes \<open>ForceField\<close> and
  \<open>Particle\<close>, the function \<open>create_explosion_at\<close> and the two list comprehensions of
  the main loop that age and prune the live collections.

  Conventions of the embedding:
  \<^item> Python floats are embedded as \<^typ>\<open>real\<close> (exact arithmetic, no rounding, no
    infinities), Python ints as \<^typ>\<open>int\<close>, \<open>str\<close> as \<^typ>\<open>string\<close>.
  \<^item> A class is a record. Both classes have attributes \<open>x\<close>, \<open>y\<close>, \<open>age\<close> and
    \<open>max_age\<close>, and \<open>size\<close> is a constant of HOL, so the fields of \<open>ForceField\<close>
    carry the prefix \<open>f_\<close> and those of \<open>Particle\<close> the prefix \<open>p_\<close>.
  \<^item> A method that mutates \<open>self\<close> returns the new object next to its result.
  \<^item> An exception is a value of type \<open>error\<close>; nothing in the program catches
    exceptions, so a raise ends the program and the half-mutated state is never seen.
  \<^item> The module \<open>random\<close> is replaced by explicit draws passed as arguments, and the
    module-level variables that input handling changes are passed in a record.
\<close>

datatype error = AttributeError | IndexError | KeyError | TypeError | ZeroDivisionError

text \<open>Sequencing: the rest of a function body runs only if no exception was raised.\<close>

definition and_then :: "error + 'a \<Rightarrow> ('a \<Rightarrow> error + 'b) \<Rightarrow> error + 'b" where
  "and_then r k = (case r of Inl e \<Rightarrow> Inl e | Inr v \<Rightarrow> k v)"

text \<open>Python's \<open>int(r)\<close> on a float truncates towards zero.\<close>

definition py_int :: "real \<Rightarrow> int" where
  "py_int r = (if 0 \<le> r then \<lfloor>r\<rfloor> else \<lceil>r\<rceil>)"

subsection \<open>Module constants and settings\<close>

definition WIDTH :: real where "WIDTH = 1000"
definition HEIGHT :: real where "HEIGHT = 700"

definition turbulence_strength :: real where "turbulence_strength = 0.3"
definition turbulence_scale :: real where "turbulence_scale = 0.005"

text \<open>The settings that the key handlers of the main loop reassign.\<close>

record settings =
  turbulence_active :: bool
  particle_size_multiplier :: real

record type_data =
  td_mass :: real
  td_color :: "int \<times> int \<times> int"
  td_drag :: real

definition PARTICLE_TYPES :: "string \<rightharpoonup> type_data" where
  "PARTICLE_TYPES =
     [''NORMAL'' \<mapsto> \<lparr>td_mass = 1.0, td_color = (100, 200, 255), td_drag = 0.98\<rparr>,
      ''HEAVY'' \<mapsto> \<lparr>td_mass = 2.0, td_color = (255, 150, 50), td_drag = 0.99\<rparr>,
      ''LIGHT'' \<mapsto> \<lparr>td_mass = 0.5, td_color = (150, 255, 100), td_drag = 0.96\<rparr>,
      ''ENERGY'' \<mapsto> \<lparr>td_mass = 0.3, td_color = (255, 100, 255), td_drag = 0.94\<rparr>]"

subsection \<open>ForceField\<close>

record ForceField =
  f_x :: real
  f_y :: real
  f_strength :: real
  f_radius_sq :: real
  f_field_type :: string
  f_age :: int
  f_max_age :: int
  f_active_radius_sq :: real

definition ForceField_init ::
  "real \<Rightarrow> real \<Rightarrow> real \<Rightarrow> real \<Rightarrow> string \<Rightarrow> int \<Rightarrow> ForceField" where
  "ForceField_init x y strength radius field_type duration =
     \<lparr>f_x = x, f_y = y, f_strength = strength, f_radius_sq = radius * radius,
      f_field_type = field_type, f_age = 0, f_max_age = duration,
      f_active_radius_sq = (radius + 20) ^ 2\<rparr>"

text \<open>\<open>update\<close> returns the aged field and the value of \<open>self.age < self.max_age\<close>.\<close>

definition ForceField_update :: "ForceField \<Rightarrow> ForceField \<times> bool" where
  "ForceField_update f =
     (let f' = f\<lparr>f_age := f_age f + 1\<rparr> in (f', f_age f' < f_max_age f'))"

definition ForceField_is_near :: "ForceField \<Rightarrow> real \<Rightarrow> real \<Rightarrow> bool" where
  "ForceField_is_near f x y =
     (let dx = x - f_x f; dy = y - f_y f in dx * dx + dy * dy < f_active_radius_sq f)"

text \<open>
  The field prune of the main loop, \<open>force_fields = [f for f in force_fields if f.update()]\<close>:
  every field is aged, and the new list holds those whose \<open>update\<close> returned true.
\<close>

fun prune_force_fields :: "ForceField list \<Rightarrow> ForceField list" where
  "prune_force_fields [] = []"
| "prune_force_fields (f # fs) =
     (case ForceField_update f of
        (f', alive) \<Rightarrow> if alive then f' # prune_force_fields fs else prune_force_fields fs)"

text \<open>The live field list after \<open>k\<close> passes of the main loop (no field added meanwhile).\<close>

fun field_steps :: "nat \<Rightarrow> ForceField list \<Rightarrow> ForceField list" where
  "field_steps 0 fs = fs"
| "field_steps (Suc k) fs = field_steps k (prune_force_fields fs)"

subsection \<open>Particle\<close>

text \<open>
  The class declares \<open>__slots__\<close> and has no base class besides \<open>object\<close>, so an
  instance has exactly these attributes and no \<open>__dict__\<close>.
\<close>

definition Particle_slots :: "string list" where
  "Particle_slots =
     [''x'', ''y'', ''vx'', ''vy'', ''type_data'', ''mass'', ''size'', ''target_size'', ''color'',
      ''trail'', ''max_trail'', ''energy'', ''max_energy'', ''age'', ''max_age'', ''glow'',
      ''merge_cooldown'', ''charged'', ''charge'', ''base_size'']"

record Particle =
  p_x :: real
  p_y :: real
  p_vx :: real
  p_vy :: real
  p_type_data :: type_data
  p_mass :: real
  p_size :: real
  p_target_size :: real
  p_color :: "int list"
  p_trail :: "(real \<times> real) list"
  p_max_trail :: int
  p_energy :: int
  p_max_energy :: int
  p_age :: int
  p_max_age :: int
  p_glow :: real
  p_merge_cooldown :: int
  p_charged :: bool
  p_charge :: int
  p_base_size :: real

text \<open>
  Assignment to an attribute, \<open>p.name = v\<close>: the store \<open>upd\<close> happens if \<open>name\<close> is a
  slot, and AttributeError is raised otherwise. The methods of the class assign to the
  twenty slots only, so their assignments are plain record updates.
\<close>

definition Particle_setattr ::
  "string \<Rightarrow> (Particle \<Rightarrow> Particle) \<Rightarrow> Particle \<Rightarrow> error + Particle" where
  "Particle_setattr name upd p =
     (if name \<in> set Particle_slots then Inr (upd p) else Inl AttributeError)"

text \<open>
  The random draws of \<open>__init__\<close>, in the order of the source: \<open>uniform(-1, 1)\<close> twice,
  \<open>uniform(2, 5)\<close>, \<open>randint(400, 1200)\<close>, \<open>random()\<close> and the index that
  \<open>choice\<close> draws below the length of \<open>[-1, 1]\<close>.
\<close>

record init_draws =
  d_vx :: real
  d_vy :: real
  d_base_size :: real
  d_max_age :: int
  d_charged :: real
  d_charge :: nat

definition init_draws_ok :: "init_draws \<Rightarrow> bool" where
  "init_draws_ok d \<longleftrightarrow>
     - 1 \<le> d_vx d \<and> d_vx d \<le> 1 \<and> - 1 \<le> d_vy d \<and> d_vy d \<le> 1 \<and>
     2 \<le> d_base_size d \<and> d_base_size d \<le> 5 \<and>
     400 \<le> d_max_age d \<and> d_max_age d \<le> 1200 \<and>
     0 \<le> d_charged d \<and> d_charged d < 1 \<and> d_charge d < 2"

definition Particle_init ::
  "settings \<Rightarrow> real \<Rightarrow> real \<Rightarrow> string \<Rightarrow> init_draws \<Rightarrow> error + Particle" where
  "Particle_init g x y particle_type d =
     (case PARTICLE_TYPES particle_type of
        None \<Rightarrow> Inl KeyError
      | Some td \<Rightarrow>
          let base_size = d_base_size d * particle_size_multiplier g in
          Inr \<lparr>p_x = x, p_y = y, p_vx = d_vx d, p_vy = d_vy d,
               p_type_data = td, p_mass = td_mass td,
               p_size = base_size, p_target_size = base_size,
               p_color = (case td_color td of (r, gr, b) \<Rightarrow> [r, gr, b]),
               p_trail = [], p_max_trail = 6, p_energy = 100, p_max_energy = 100,
               p_age = 0, p_max_age = d_max_age d, p_glow = 0, p_merge_cooldown = 0,
               p_charged = (d_charged d < 0.3),
               p_charge = [- 1, 1] ! (d_charge d mod 2),
               p_base_size = base_size\<rparr>)"

subsubsection \<open>\<open>Particle.update\<close>, in the order of its body\<close>

text \<open>Lines 119 to 126: age, merge cooldown and trail.\<close>

definition update_age_trail :: "Particle \<Rightarrow> Particle" where
  "update_age_trail p =
     (let p = p\<lparr>p_age := p_age p + 1\<rparr>;
          p = (if p_merge_cooldown p > 0
               then p\<lparr>p_merge_cooldown := p_merge_cooldown p - 1\<rparr> else p);
          p = p\<lparr>p_trail := p_trail p @ [(p_x p, p_y p)]\<rparr>
      in if int (length (p_trail p)) > p_max_trail p
         then p\<lparr>p_trail := tl (p_trail p)\<rparr> else p)"

text \<open>Lines 129 to 133: turbulence.\<close>

definition update_turbulence :: "settings \<Rightarrow> Particle \<Rightarrow> Particle" where
  "update_turbulence g p =
     (if turbulence_active g
      then
        let nx = sin (p_x p * turbulence_scale + real_of_int (p_age p) * 0.02)
                   * turbulence_strength;
            ny = cos (p_y p * turbulence_scale + real_of_int (p_age p) * 0.02)
                   * turbulence_strength
        in p\<lparr>p_vx := p_vx p + nx, p_vy := p_vy p + ny\<rparr>
      else p)"

text \<open>
  Lines 137 to 156: the acceleration \<open>(ax, ay)\<close> that one field contributes, \<open>None\<close>
  where the loop body reaches \<open>continue\<close>. For a negative \<open>radius_sq\<close> the power
  \<open>radius_sq ** 0.5\<close> is a complex number and the comparison raises TypeError.
\<close>

definition field_acceleration :: "Particle \<Rightarrow> ForceField \<Rightarrow> error + (real \<times> real) option" where
  "field_acceleration p field =
     (if \<not> ForceField_is_near field (p_x p) (p_y p) then Inr None
      else
        let dx = f_x field - p_x p;
            dy = f_y field - p_y p;
            dist_sq = dx * dx + dy * dy;
            dist_sq = (if dist_sq < 1 then 1 else dist_sq);
            distance = sqrt dist_sq
        in if f_radius_sq field < 0 then Inl TypeError
           else if distance \<ge> sqrt (f_radius_sq field) then Inr None
           else
             let force =
                   (if f_field_type field = ''gravity''
                    then f_strength field * p_mass p / distance
                    else if f_field_type field = ''repulsion''
                    then - f_strength field * p_mass p / distance
                    else f_strength field * real_of_int (p_charge p) / distance);
                 ax = (dx / distance) * force * 0.8;
                 ay = (dy / distance) * force * 0.8
             in Inr (Some (ax, ay)))"

text \<open>Lines 136 to 158: the loop over the fields.\<close>

fun update_force_fields :: "ForceField list \<Rightarrow> Particle \<Rightarrow> error + Particle" where
  "update_force_fields [] p = Inr p"
| "update_force_fields (field # force_fields) p =
     (case field_acceleration p field of
        Inl e \<Rightarrow> Inl e
      | Inr None \<Rightarrow> update_force_fields force_fields p
      | Inr (Some (ax, ay)) \<Rightarrow>
          update_force_fields force_fields (p\<lparr>p_vx := p_vx p + ax, p_vy := p_vy p + ay\<rparr>))"

text \<open>
  Lines 161 to 170: drag and speed limit, in exact arithmetic. The same lines with the
  rounding of the doubles are \<open>update_drag_double\<close> and \<open>update_speed_limit_double\<close>
  below.
\<close>

definition update_drag :: "Particle \<Rightarrow> Particle" where
  "update_drag p =
     (let drag = td_drag (p_type_data p)
      in p\<lparr>p_vx := p_vx p * drag, p_vy := p_vy p * drag\<rparr>)"

definition update_speed_limit :: "Particle \<Rightarrow> Particle" where
  "update_speed_limit p =
     (let speed_sq = p_vx p * p_vx p + p_vy p * p_vy p
      in if speed_sq > 225
         then let scale = 15.0 / sqrt speed_sq
              in p\<lparr>p_vx := p_vx p * scale, p_vy := p_vy p * scale\<rparr>
         else p)"

text \<open>Lines 173 to 182: move and bounce off the window bounds.\<close>

definition update_move :: "Particle \<Rightarrow> Particle" where
  "update_move p = p\<lparr>p_x := p_x p + p_vx p * 2, p_y := p_y p + p_vy p * 2\<rparr>"

definition update_bounds :: "Particle \<Rightarrow> Particle" where
  "update_bounds p =
     (let p = (if p_x p < 0 \<or> p_x p > WIDTH
               then p\<lparr>p_vx := p_vx p * (- 0.6), p_x := max 0 (min WIDTH (p_x p))\<rparr>
               else p)
      in if p_y p < 0 \<or> p_y p > HEIGHT
         then p\<lparr>p_vy := p_vy p * (- 0.6), p_y := max 0 (min HEIGHT (p_y p))\<rparr>
         else p)"

text \<open>
  Lines 185 to 202: size, colour, glow and target size. The division raises
  ZeroDivisionError for \<open>max_energy = 0\<close>, and the three item assignments raise
  IndexError on a colour list of fewer than three items.
\<close>

definition update_energy_visuals :: "Particle \<Rightarrow> error + Particle" where
  "update_energy_visuals p =
     (let p = p\<lparr>p_size := p_size p + (p_target_size p - p_size p) * 0.1\<rparr>
      in if p_max_energy p = 0 then Inl ZeroDivisionError
         else
           let energy_ratio = real_of_int (p_energy p) / real_of_int (p_max_energy p)
           in if length (p_color p) < 3 then Inl IndexError
              else
                let p = p\<lparr>p_color := (p_color p)
                          [0 := min 255 (py_int (100 + 155 * energy_ratio)),
                           1 := min 255 (py_int (150 + 100 * energy_ratio)),
                           2 := min 255 (py_int (100 + 155 * (1 - energy_ratio)))]\<rparr>;
                    p = p\<lparr>p_glow := (if p_energy p > 80 then p_glow p + 0.5
                                       else max 0 (p_glow p - 0.3))\<rparr>;
                    p = (if p_energy p < 20
                         then p\<lparr>p_target_size := max 1 (p_base_size p * 0.7)\<rparr>
                         else if p_energy p > 80
                         then p\<lparr>p_target_size := min (p_base_size p * 2) (p_size p * 1.01)\<rparr>
                         else p\<lparr>p_target_size := p_base_size p\<rparr>)
                in Inr p)"

text \<open>
  \<open>update(self, force_fields, particles, dt)\<close>; the body never reads \<open>particles\<close> and
  \<open>dt\<close>, so the embedding has no such arguments. The result is the updated particle and
  the returned flag \<open>self.age > self.max_age or self.energy <= 0\<close>.
\<close>

definition Particle_update ::
  "settings \<Rightarrow> ForceField list \<Rightarrow> Particle \<Rightarrow> error + Particle \<times> bool" where
  "Particle_update g force_fields p =
     and_then (update_force_fields force_fields (update_turbulence g (update_age_trail p)))
       (\<lambda>p. and_then
          (update_energy_visuals (update_bounds (update_move (update_speed_limit (update_drag p)))))
          (\<lambda>p. Inr (p, p_age p > p_max_age p \<or> p_energy p \<le> 0)))"

text \<open>
  The particle prune of the main loop,
  \<open>particles = [p for p in particles if not p.update(force_fields, particles, dt)]\<close>.
\<close>

fun prune_particles :: "settings \<Rightarrow> ForceField list \<Rightarrow> Particle list \<Rightarrow> error + Particle list" where
  "prune_particles g force_fields [] = Inr []"
| "prune_particles g force_fields (p # ps) =
     and_then (Particle_update g force_fields p)
       (\<lambda>(p', dead). and_then (prune_particles g force_fields ps)
          (\<lambda>ps'. Inr (if dead then ps' else p' # ps')))"

text \<open>
  One particle over successive passes of the main loop. \<open>frames\<close> holds the live field
  list of each pass. The particle is updated once per pass until its \<open>update\<close> returns
  true, when the comprehension drops it. The result is its last state and whether it was
  dropped.
\<close>

fun Particle_steps ::
  "settings \<Rightarrow> ForceField list list \<Rightarrow> Particle \<Rightarrow> error + Particle \<times> bool" where
  "Particle_steps g [] p = Inr (p, False)"
| "Particle_steps g (force_fields # frames) p =
     and_then (Particle_update g force_fields p)
       (\<lambda>(p', dead). if dead then Inr (p', True) else Particle_steps g frames p')"

text \<open>
  Lines 224 to 226 of \<open>draw\<close>: the colour, centre and radius of the circle painted on a
  charged particle, \<open>None\<close> when nothing is painted.
\<close>

definition draw_charge_marker ::
  "Particle \<Rightarrow> ((int \<times> int \<times> int) \<times> (int \<times> int) \<times> int) option" where
  "draw_charge_marker p =
     (if p_charged p
      then
        let col = (if p_charge p > 0 then (255, 255, 0) else (0, 255, 255))
        in Some (col, (py_int (p_x p), py_int (p_y p)), max 1 (py_int (p_size p * 0.3)))
      else None)"

subsection \<open>Drag, speed limit, move and bounds in double arithmetic\<close>

text \<open>
  A Python float is an IEEE 754 double: zero, or \<open>m * 2 ^ e\<close> with an integer \<open>m\<close> of
  53 bits. Every arithmetic operation and \<open>math.sqrt\<close> return the exact result rounded
  to the nearest double, a tie going to the even \<open>m\<close>, and a decimal literal denotes the
  double nearest to it. \<open>round_even\<close> rounds to the nearest integer in this way, and
  \<open>double r\<close> rounds \<open>r\<close> to 53 bits. The exponent is not bounded here: overflow to
  infinity and the coarser spacing of the doubles below \<open>2 ^ -1022\<close> are left out, which
  no speed near the limit of 15 comes close to.
\<close>

definition round_even :: "real \<Rightarrow> int" where
  "round_even r =
     (let f = \<lfloor>r\<rfloor>; d = r - real_of_int f
      in if d < 1 / 2 then f else if 1 / 2 < d then f + 1 else if even f then f else f + 1)"

definition double :: "real \<Rightarrow> real" where
  "double r =
     (if r = 0 then 0
      else let w = 2 powr real_of_int (\<lfloor>log 2 \<bar>r\<bar>\<rfloor> - 52)
           in real_of_int (round_even (r / w)) * w)"

text \<open>The largest relative error of one rounding, \<open>2 ^ -53\<close>.\<close>

definition unit_roundoff :: real where
  "unit_roundoff = 1 / 2 ^ 53"

text \<open>
  Lines 161 to 182, the last lines of \<open>update\<close> that assign the velocity, with the
  rounding of every operation written out. The literal \<open>-0.6\<close> is the negated double
  nearest to \<open>0.6\<close>; \<open>15.0\<close>, \<open>2\<close>, \<open>225\<close> and the window bounds are doubles.
\<close>

definition update_drag_double :: "Particle \<Rightarrow> Particle" where
  "update_drag_double p =
     (let drag = double (td_drag (p_type_data p))
      in p\<lparr>p_vx := double (p_vx p * drag), p_vy := double (p_vy p * drag)\<rparr>)"

definition update_speed_limit_double :: "Particle \<Rightarrow> Particle" where
  "update_speed_limit_double p =
     (let speed_sq = double (double (p_vx p * p_vx p) + double (p_vy p * p_vy p))
      in if speed_sq > 225
         then let scale = double (15.0 / double (sqrt speed_sq))
              in p\<lparr>p_vx := double (p_vx p * scale), p_vy := double (p_vy p * scale)\<rparr>
         else p)"

definition update_move_double :: "Particle \<Rightarrow> Particle" where
  "update_move_double p =
     p\<lparr>p_x := double (p_x p + double (p_vx p * 2)),
       p_y := double (p_y p + double (p_vy p * 2))\<rparr>"

definition update_bounds_double :: "Particle \<Rightarrow> Particle" where
  "update_bounds_double p =
     (let p = (if p_x p < 0 \<or> p_x p > WIDTH
               then p\<lparr>p_vx := double (p_vx p * (- double 0.6)),
                      p_x := max 0 (min WIDTH (p_x p))\<rparr>
               else p)
      in if p_y p < 0 \<or> p_y p > HEIGHT
         then p\<lparr>p_vy := double (p_vy p * (- double 0.6)),
                p_y := max 0 (min HEIGHT (p_y p))\<rparr>
         else p)"

text \<open>The bound on the squared speed that holds with rounding.\<close>

definition speed_cap_double :: real where
  "speed_cap_double = 225 * ((1 + unit_roundoff) / (1 - unit_roundoff)) ^ 4"

subsection \<open>Explosion shards\<close>

text \<open>
  The random draws of one pass of the loop in \<open>create_explosion_at\<close>, in the order of
  the source: the angle, the speed, the draws of \<open>Particle(x, y, "LIGHT")\<close>, the size,
  the three colour offsets and the maximal age.
\<close>

record shard_draws =
  s_angle :: real
  s_speed :: real
  s_init :: init_draws
  s_size :: real
  s_red :: int
  s_green :: int
  s_blue :: int
  s_max_age :: int

definition shard_draws_ok :: "shard_draws \<Rightarrow> bool" where
  "shard_draws_ok d \<longleftrightarrow>
     0 \<le> s_angle d \<and> s_angle d \<le> pi * 2 \<and> 2 \<le> s_speed d \<and> s_speed d \<le> 6 \<and>
     init_draws_ok (s_init d) \<and> 1 \<le> s_size d \<and> s_size d \<le> 2 \<and>
     - 30 \<le> s_red d \<and> s_red d \<le> 30 \<and> - 30 \<le> s_green d \<and> s_green d \<le> 30 \<and>
     - 30 \<le> s_blue d \<and> s_blue d \<le> 30 \<and> 40 \<le> s_max_age d \<and> s_max_age d \<le> 80"

text \<open>Lines 337 to 341: the list assigned to \<open>p.color\<close>.\<close>

definition shard_color :: "int list \<Rightarrow> int \<Rightarrow> int \<Rightarrow> int \<Rightarrow> error + int list" where
  "shard_color color dr dg db =
     (if length color < 3 then Inl IndexError
      else Inr [min 255 (color ! 0 + dr), min 255 (color ! 1 + dg), min 255 (color ! 2 + db)])"

text \<open>Lines 328 to 343: the loop body up to \<open>p.energy = 50\<close>.\<close>

definition shard_until_energy ::
  "settings \<Rightarrow> real \<Rightarrow> real \<Rightarrow> int list \<Rightarrow> shard_draws \<Rightarrow> error + Particle" where
  "shard_until_energy g x y color d =
     (let angle = s_angle d;
          speed = s_speed d;
          vx = cos angle * speed;
          vy = sin angle * speed
      in and_then (Particle_init g x y ''LIGHT'' (s_init d))
        (\<lambda>p. and_then (Particle_setattr ''vx'' (\<lambda>p. p\<lparr>p_vx := vx\<rparr>) p)
        (\<lambda>p. and_then (Particle_setattr ''vy'' (\<lambda>p. p\<lparr>p_vy := vy\<rparr>) p)
        (\<lambda>p. and_then (Particle_setattr ''size'' (\<lambda>p. p\<lparr>p_size := s_size d\<rparr>) p)
        (\<lambda>p. and_then (Particle_setattr ''target_size'' (\<lambda>p. p\<lparr>p_target_size := p_size p\<rparr>) p)
        (\<lambda>p. and_then (shard_color color (s_red d) (s_green d) (s_blue d))
        (\<lambda>c. and_then (Particle_setattr ''color'' (\<lambda>p. p\<lparr>p_color := c\<rparr>) p)
        (\<lambda>p. and_then (Particle_setattr ''max_age'' (\<lambda>p. p\<lparr>p_max_age := s_max_age d\<rparr>) p)
        (\<lambda>p. Particle_setattr ''energy'' (\<lambda>p. p\<lparr>p_energy := 50\<rparr>) p)))))))))"

text \<open>
  The whole loop body without the final append. Line 344 is \<open>p.drag = 0.90\<close>; the
  class has no slot for the value, so the store of the embedding leaves the record as
  it is.
\<close>

definition explosion_shard ::
  "settings \<Rightarrow> real \<Rightarrow> real \<Rightarrow> int list \<Rightarrow> shard_draws \<Rightarrow> error + Particle" where
  "explosion_shard g x y color d =
     and_then (shard_until_energy g x y color d) (Particle_setattr ''drag'' (\<lambda>p. p))"

text \<open>
  The loop \<open>for _ in range(count)\<close> over the passes still to run; \<open>draws i\<close> are the
  draws of pass \<open>i\<close>, and \<open>particles\<close> is the global list.
\<close>

fun explosion_loop ::
  "settings \<Rightarrow> real \<Rightarrow> real \<Rightarrow> int list \<Rightarrow> (nat \<Rightarrow> shard_draws) \<Rightarrow> nat list \<Rightarrow>
   Particle list \<Rightarrow> error + Particle list" where
  "explosion_loop g x y color draws [] particles = Inr particles"
| "explosion_loop g x y color draws (i # passes) particles =
     and_then (explosion_shard g x y color (draws i))
       (\<lambda>p. explosion_loop g x y color draws passes (particles @ [p]))"

definition create_explosion_at ::
  "settings \<Rightarrow> real \<Rightarrow> real \<Rightarrow> int list \<Rightarrow> int \<Rightarrow> (nat \<Rightarrow> shard_draws) \<Rightarrow>
   Particle list \<Rightarrow> error + Particle list" where
  "create_explosion_at g x y color count draws particles =
     explosion_loop g x y color draws [0..<nat count] particles"

subsection \<open>Predicates used in the properties\<close>

text \<open>
  The particle with position and velocity erased: what is left is the part of the state
  that turbulence, the fields, drag, speed limit, move and bounds do not touch.
\<close>

definition without_motion :: "Particle \<Rightarrow> Particle" where
  "without_motion p = p\<lparr>p_x := 0, p_y := 0, p_vx := 0, p_vy := 0\<rparr>"

text \<open>
  The invariant behind the bounds on size and trail: next to the two bounds themselves,
  the values that the next sizes and trails are computed from.
\<close>

definition size_trail_invariant :: "Particle \<Rightarrow> bool" where
  "size_trail_invariant p \<longleftrightarrow>
     0 \<le> p_size p \<and> length (p_trail p) \<le> 6 \<and>
     0 \<le> p_target_size p \<and> 0 \<le> p_base_size p \<and> p_max_trail p \<le> 6"

subsection \<open>Concrete states\<close>

definition example_settings :: settings where
  "example_settings = \<lparr>turbulence_active = False, particle_size_multiplier = 1\<rparr>"

definition example_draws :: init_draws where
  "example_draws = \<lparr>d_vx = 0.5, d_vy = - 0.25, d_base_size = 3, d_max_age = 600,
                     d_charged = 0.1, d_charge = 1\<rparr>"

text \<open>The particle that \<open>Particle(500, 350)\<close> builds from these draws.\<close>

definition example_particle :: Particle where
  "example_particle =
     \<lparr>p_x = 500, p_y = 350, p_vx = 0.5, p_vy = - 0.25,
      p_type_data = \<lparr>td_mass = 1.0, td_color = (100, 200, 255), td_drag = 0.98\<rparr>,
      p_mass = 1.0, p_size = 3, p_target_size = 3, p_color = [100, 200, 255],
      p_trail = [], p_max_trail = 6, p_energy = 100, p_max_energy = 100,
      p_age = 0, p_max_age = 600, p_glow = 0, p_merge_cooldown = 0,
      p_charged = True, p_charge = 1, p_base_size = 3\<rparr>"

text \<open>The same particle at speed 50, and its state one \<open>update\<close> later.\<close>

definition example_fast :: Particle where
  "example_fast = example_particle\<lparr>p_vx := 30, p_vy := 40\<rparr>"

definition example_fast_next :: Particle where
  "example_fast_next =
     \<lparr>p_x = 518, p_y = 374, p_vx = 9, p_vy = 12,
      p_type_data = \<lparr>td_mass = 1.0, td_color = (100, 200, 255), td_drag = 0.98\<rparr>,
      p_mass = 1.0, p_size = 3, p_target_size = 3.03, p_color = [255, 250, 100],
      p_trail = [(500, 350)], p_max_trail = 6, p_energy = 100, p_max_energy = 100,
      p_age = 1, p_max_age = 600, p_glow = 0.5, p_merge_cooldown = 0,
      p_charged = True, p_charge = 1, p_base_size = 3\<rparr>"

text \<open>A state with a negative target size, and its state one \<open>update\<close> later.\<close>

definition example_sinking :: Particle where
  "example_sinking = example_particle\<lparr>p_target_size := - 100\<rparr>"

definition example_sinking_next :: Particle where
  "example_sinking_next =
     \<lparr>p_x = 500.98, p_y = 349.51, p_vx = 0.49, p_vy = - 0.245,
      p_type_data = \<lparr>td_mass = 1.0, td_color = (100, 200, 255), td_drag = 0.98\<rparr>,
      p_mass = 1.0, p_size = - 7.3, p_target_size = - 7.373, p_color = [255, 250, 100],
      p_trail = [(500, 350)], p_max_trail = 6, p_energy = 100, p_max_energy = 100,
      p_age = 1, p_max_age = 600, p_glow = 0.5, p_merge_cooldown = 0,
      p_charged = True, p_charge = 1, p_base_size = 3\<rparr>"

text \<open>A state whose trail may grow to ten positions, and its state one \<open>update\<close> later.\<close>

definition example_long_trail :: Particle where
  "example_long_trail =
     example_particle\<lparr>p_max_trail := 10, p_trail := replicate 6 (500, 350)\<rparr>"

definition example_long_trail_next :: Particle where
  "example_long_trail_next =
     \<lparr>p_x = 500.98, p_y = 349.51, p_vx = 0.49, p_vy = - 0.245,
      p_type_data = \<lparr>td_mass = 1.0, td_color = (100, 200, 255), td_drag = 0.98\<rparr>,
      p_mass = 1.0, p_size = 3, p_target_size = 3.03, p_color = [255, 250, 100],
      p_trail = replicate 7 (500, 350), p_max_trail = 10, p_energy = 100,
      p_max_energy = 100, p_age = 1, p_max_age = 600, p_glow = 0.5, p_merge_cooldown = 0,
      p_charged = True, p_charge = 1, p_base_size = 3\<rparr>"

text \<open>The fast particle at its maximal age, and its state one \<open>update\<close> later.\<close>

definition example_old :: Particle where
  "example_old = example_fast\<lparr>p_age := 600\<rparr>"

definition example_old_next :: Particle where
  "example_old_next = example_fast_next\<lparr>p_age := 601\<rparr>"

text \<open>Three fields centred 5 units from \<open>example_particle\<close>, offset \<open>(3, 4)\<close>.\<close>

definition example_gravity :: ForceField where
  "example_gravity = ForceField_init 503 354 2 120 ''gravity'' 120"

definition example_repulsion :: ForceField where
  "example_repulsion = ForceField_init 503 354 2 100 ''repulsion'' 120"

definition example_magnetic :: ForceField where
  "example_magnetic = ForceField_init 503 354 4 90 ''magnetic'' 120"

text \<open>
  A particle that \<open>Particle(500, 350)\<close> builds without the \<open>charged\<close> flag and with
  charge \<open>-1\<close>, and its state after one \<open>update\<close> under \<open>example_magnetic\<close>.
\<close>

definition example_uncharged_draws :: init_draws where
  "example_uncharged_draws = example_draws\<lparr>d_charged := 0.9, d_charge := 0\<rparr>"

definition example_uncharged :: Particle where
  "example_uncharged = example_particle\<lparr>p_charged := False, p_charge := - 1\<rparr>"

definition example_uncharged_next :: Particle where
  "example_uncharged_next =
     \<lparr>p_x = 500.22736, p_y = 348.50648, p_vx = 0.11368, p_vy = - 0.74676,
      p_type_data = \<lparr>td_mass = 1.0, td_color = (100, 200, 255), td_drag = 0.98\<rparr>,
      p_mass = 1.0, p_size = 3, p_target_size = 3.03, p_color = [255, 250, 100],
      p_trail = [(500, 350)], p_max_trail = 6, p_energy = 100, p_max_energy = 100,
      p_age = 1, p_max_age = 600, p_glow = 0.5, p_merge_cooldown = 0,
      p_charged = False, p_charge = - 1, p_base_size = 3\<rparr>"

text \<open>
  Draws for the passes of an explosion, the state that lines 328 to 343 build from them
  at \<open>(500, 350)\<close> for the source colour \<open>[10, 200, 255]\<close>, and that state one
  \<open>update\<close> later.
\<close>

definition example_shard_draws :: "nat \<Rightarrow> shard_draws" where
  "example_shard_draws i =
     \<lparr>s_angle = 0, s_speed = 2, s_init = example_draws, s_size = 1.5,
      s_red = - 30, s_green = 0, s_blue = 30, s_max_age = 60\<rparr>"

definition example_shard :: Particle where
  "example_shard =
     \<lparr>p_x = 500, p_y = 350, p_vx = 2, p_vy = 0,
      p_type_data = \<lparr>td_mass = 0.5, td_color = (150, 255, 100), td_drag = 0.96\<rparr>,
      p_mass = 0.5, p_size = 1.5, p_target_size = 1.5, p_color = [- 20, 200, 255],
      p_trail = [], p_max_trail = 6, p_energy = 50, p_max_energy = 100,
      p_age = 0, p_max_age = 60, p_glow = 0, p_merge_cooldown = 0,
      p_charged = True, p_charge = 1, p_base_size = 3\<rparr>"

definition example_shard_next :: Particle where
  "example_shard_next =
     \<lparr>p_x = 503.84, p_y = 350, p_vx = 1.92, p_vy = 0,
      p_type_data = \<lparr>td_mass = 0.5, td_color = (150, 255, 100), td_drag = 0.96\<rparr>,
      p_mass = 0.5, p_size = 1.5, p_target_size = 3, p_color = [177, 200, 177],
      p_trail = [(500, 350)], p_max_trail = 6, p_energy = 50, p_max_energy = 100,
      p_age = 1, p_max_age = 60, p_glow = 0, p_merge_cooldown = 0,
      p_charged = True, p_charge = 1, p_base_size = 3\<rparr>"

section \<open>Properties\<close>

subsection \<open>General facts\<close>

lemma and_then_Inr:
  "and_then r k = Inr v \<longleftrightarrow> (\<exists>a. r = Inr a \<and> k a = Inr v)"
  by (cases r) (simp_all add: and_then_def)

lemma Particle_update_Inr:
  "Particle_update g ffs p = Inr (p', dead) \<longleftrightarrow>
     (\<exists>q. update_force_fields ffs (update_turbulence g (update_age_trail p)) = Inr q \<and>
          update_energy_visuals
            (update_bounds (update_move (update_speed_limit (update_drag q)))) = Inr p' \<and>
          dead = (p_age p' > p_max_age p' \<or> p_energy p' \<le> 0))"
  by (auto simp add: Particle_update_def and_then_Inr)

lemmas update_defs = Particle_update_def and_then_def update_age_trail_def
  update_turbulence_def update_drag_def update_speed_limit_def update_move_def
  update_bounds_def update_energy_visuals_def py_int_def WIDTH_def HEIGHT_def

lemma example_particle_init:
  "Particle_init example_settings 500 350 ''NORMAL'' example_draws = Inr example_particle"
  by (simp add: Particle_init_def PARTICLE_TYPES_def example_settings_def example_draws_def
      example_particle_def)

lemma sqrt_2401: "sqrt 2401 = 49"
  by (rule real_sqrt_unique) simp_all

lemma example_fast_update_at_age:
  "Particle_update example_settings [] (example_fast\<lparr>p_age := a\<rparr>) =
     Inr (example_fast_next\<lparr>p_age := a + 1\<rparr>, a + 1 > 600)"
  by (simp add: update_defs example_settings_def example_particle_def example_fast_def
      example_fast_next_def sqrt_2401)

lemma example_fast_update:
  "Particle_update example_settings [] example_fast = Inr (example_fast_next, False)"
  using example_fast_update_at_age [of 0]
  by (simp add: example_particle_def example_fast_def example_fast_next_def)

lemma sqrt_25: "sqrt 25 = 5"
  by (rule real_sqrt_unique) simp_all

lemma sqrt_8100: "sqrt 8100 = 90"
  by (rule real_sqrt_unique) simp_all

lemma sqrt_10000: "sqrt 10000 = 100"
  by (rule real_sqrt_unique) simp_all

lemma sqrt_14400: "sqrt 14400 = 120"
  by (rule real_sqrt_unique) simp_all

lemma example_gravity_acceleration:
  "field_acceleration example_particle example_gravity = Inr (Some (0.192, 0.256))"
  by (simp add: field_acceleration_def ForceField_is_near_def example_gravity_def
      ForceField_init_def example_particle_def sqrt_25 sqrt_14400)

lemma example_repulsion_acceleration:
  "field_acceleration example_particle example_repulsion = Inr (Some (- 0.192, - 0.256))"
  by (simp add: field_acceleration_def ForceField_is_near_def example_repulsion_def
      ForceField_init_def example_particle_def sqrt_25 sqrt_10000)

lemma example_magnetic_acceleration:
  "field_acceleration example_particle example_magnetic = Inr (Some (0.384, 0.512))"
  by (simp add: field_acceleration_def ForceField_is_near_def example_magnetic_def
      ForceField_init_def example_particle_def sqrt_25 sqrt_8100)

text \<open>What an \<open>update\<close> leaves alone.\<close>

lemma without_motion_turbulence [simp]:
  "without_motion (update_turbulence g p) = without_motion p"
  by (simp add: without_motion_def update_turbulence_def Let_def)

lemma without_motion_drag [simp]: "without_motion (update_drag p) = without_motion p"
  by (simp add: without_motion_def update_drag_def Let_def)

lemma without_motion_speed_limit [simp]:
  "without_motion (update_speed_limit p) = without_motion p"
  by (simp add: without_motion_def update_speed_limit_def Let_def)

lemma without_motion_move [simp]: "without_motion (update_move p) = without_motion p"
  by (simp add: without_motion_def update_move_def)

lemma without_motion_bounds [simp]: "without_motion (update_bounds p) = without_motion p"
  by (simp add: without_motion_def update_bounds_def Let_def)

lemma without_motion_force_fields:
  "update_force_fields ffs p = Inr q \<Longrightarrow> without_motion q = without_motion p"
proof (induction ffs arbitrary: p)
  case Nil
  then show ?case by simp
next
  case (Cons f ffs)
  show ?case
  proof (cases "field_acceleration p f")
    case (Inl e)
    with Cons.prems show ?thesis by simp
  next
    case (Inr r)
    show ?thesis
    proof (cases r)
      case None
      with Inr Cons show ?thesis by simp
    next
      case (Some a)
      obtain ax ay where a: "a = (ax, ay)" by (cases a)
      from Some a Inr Cons.prems
      have "update_force_fields ffs (p\<lparr>p_vx := p_vx p + ax, p_vy := p_vy p + ay\<rparr>) = Inr q"
        by simp
      from Cons.IH [OF this] show ?thesis by (simp add: without_motion_def)
    qed
  qed
qed

lemma Particle_update_frame:
  assumes "Particle_update g ffs p = Inr (p', dead)"
  shows "\<exists>m. without_motion m = without_motion (update_age_trail p) \<and>
             update_energy_visuals m = Inr p' \<and>
             dead = (p_age p' > p_max_age p' \<or> p_energy p' \<le> 0)"
proof -
  from assms obtain q where
    q: "update_force_fields ffs (update_turbulence g (update_age_trail p)) = Inr q" and
    e: "update_energy_visuals (update_bounds (update_move (update_speed_limit (update_drag q)))) = Inr p'" and
    d: "dead = (p_age p' > p_max_age p' \<or> p_energy p' \<le> 0)"
    by (auto simp add: Particle_update_Inr)
  have "without_motion (update_bounds (update_move (update_speed_limit (update_drag q)))) =
        without_motion (update_age_trail p)"
    using without_motion_force_fields [OF q] by simp
  with e d show ?thesis by blast
qed

lemma without_motion_fields:
  assumes "without_motion m = without_motion a"
  shows "p_size m = p_size a" and "p_target_size m = p_target_size a"
    and "p_base_size m = p_base_size a" and "p_max_trail m = p_max_trail a"
    and "p_trail m = p_trail a" and "p_energy m = p_energy a"
    and "p_max_energy m = p_max_energy a" and "p_age m = p_age a"
    and "p_max_age m = p_max_age a" and "p_charged m = p_charged a"
    and "p_charge m = p_charge a" and "p_color m = p_color a"
proof -
  have "f (without_motion m) = f (without_motion a)" for f :: "Particle \<Rightarrow> 'a"
    using assms by simp
  note e = this
  show "p_size m = p_size a" using e [of p_size] by (simp add: without_motion_def)
  show "p_target_size m = p_target_size a"
    using e [of p_target_size] by (simp add: without_motion_def)
  show "p_base_size m = p_base_size a" using e [of p_base_size] by (simp add: without_motion_def)
  show "p_max_trail m = p_max_trail a" using e [of p_max_trail] by (simp add: without_motion_def)
  show "p_trail m = p_trail a" using e [of p_trail] by (simp add: without_motion_def)
  show "p_energy m = p_energy a" using e [of p_energy] by (simp add: without_motion_def)
  show "p_max_energy m = p_max_energy a"
    using e [of p_max_energy] by (simp add: without_motion_def)
  show "p_age m = p_age a" using e [of p_age] by (simp add: without_motion_def)
  show "p_max_age m = p_max_age a" using e [of p_max_age] by (simp add: without_motion_def)
  show "p_charged m = p_charged a" using e [of p_charged] by (simp add: without_motion_def)
  show "p_charge m = p_charge a" using e [of p_charge] by (simp add: without_motion_def)
  show "p_color m = p_color a" using e [of p_color] by (simp add: without_motion_def)
qed

lemma energy_visuals_fields:
  assumes "update_energy_visuals m = Inr p'"
  shows "p_size p' = p_size m + (p_target_size m - p_size m) * 0.1"
    and "p_target_size p' =
           (if p_energy m < 20 then max 1 (p_base_size m * 0.7)
            else if p_energy m > 80 then min (p_base_size m * 2) (p_size p' * 1.01)
            else p_base_size m)"
    and "p_base_size p' = p_base_size m" and "p_trail p' = p_trail m"
    and "p_max_trail p' = p_max_trail m" and "p_energy p' = p_energy m"
    and "p_age p' = p_age m" and "p_max_age p' = p_max_age m"
    and "p_charged p' = p_charged m" and "p_charge p' = p_charge m"
  using assms
  by (auto simp add: update_energy_visuals_def Let_def split: if_splits)

text \<open>
  \<open>update\<close> returns on every state whose \<open>max_energy\<close> is not zero and whose colour
  has three items, for fields whose \<open>radius_sq\<close> is not negative; \<open>__init__\<close> of either
  class builds such states.
\<close>

lemma field_acceleration_returns:
  "0 \<le> f_radius_sq f \<Longrightarrow> \<exists>r. field_acceleration p f = Inr r"
  by (simp add: field_acceleration_def Let_def)

lemma update_force_fields_returns:
  "\<forall>f \<in> set ffs. 0 \<le> f_radius_sq f \<Longrightarrow> \<exists>q. update_force_fields ffs p = Inr q"
proof (induction ffs arbitrary: p)
  case Nil
  show ?case by simp
next
  case (Cons f ffs)
  then obtain r where r: "field_acceleration p f = Inr r"
    using field_acceleration_returns [of f p] by auto
  from Cons have "\<exists>q. update_force_fields ffs p' = Inr q" for p' by simp
  with r show ?case by (cases r) auto
qed

lemma Particle_update_returns:
  assumes "p_max_energy p \<noteq> 0" and "3 \<le> length (p_color p)"
    and "\<forall>f \<in> set ffs. 0 \<le> f_radius_sq f"
  shows "\<exists>p' dead. Particle_update g ffs p = Inr (p', dead)"
proof -
  obtain q where q: "update_force_fields ffs (update_turbulence g (update_age_trail p)) = Inr q"
    using update_force_fields_returns [OF assms(3)] by blast
  let ?m = "update_bounds (update_move (update_speed_limit (update_drag q)))"
  have "without_motion ?m = without_motion (update_age_trail p)"
    using without_motion_force_fields [OF q] by simp
  note f = without_motion_fields [OF this]
  have "p_max_energy ?m \<noteq> 0" and "3 \<le> length (p_color ?m)"
    using assms(1,2) by (simp_all add: f update_age_trail_def Let_def)
  then have "\<exists>p'. update_energy_visuals ?m = Inr p'"
    by (simp add: update_energy_visuals_def Let_def)
  with q show ?thesis
    by (auto simp add: Particle_update_def and_then_def)
qed

subsection \<open>Lifetime of a force field\<close>

lemma prune_force_fields_eq:
  "prune_force_fields fs =
     map (\<lambda>f. f\<lparr>f_age := f_age f + 1\<rparr>) (filter (\<lambda>f. f_age f + 1 < f_max_age f) fs)"
  by (induction fs) (simp_all add: ForceField_update_def)

lemma field_steps_eq:
  "field_steps k fs =
     map (\<lambda>f. f\<lparr>f_age := f_age f + int k\<rparr>)
       (filter (\<lambda>f. k = 0 \<or> f_age f + int k < f_max_age f) fs)"
proof (induction k arbitrary: fs)
  case 0
  show ?case by simp
next
  case (Suc k)
  have "(f_age f + 1 < f_max_age f \<and> (k = 0 \<or> f_age f + 1 + int k < f_max_age f)) =
        (f_age f + int (Suc k) < f_max_age f)" for f :: ForceField
    by auto
  then show ?case
    by (simp add: Suc prune_force_fields_eq filter_map comp_def add.assoc)
qed

lemma field_steps_Nil [simp]: "field_steps k [] = []"
  by (simp add: field_steps_eq)

lemma field_steps_append:
  "field_steps k (fs @ gs) = field_steps k fs @ field_steps k gs"
  by (simp add: field_steps_eq)

text \<open>
  Claim C5. \<open>ForceField.update\<close> adds exactly one to the age and returns whether the new
  age is below the maximal age; the prune of the main loop keeps exactly the fields whose
  \<open>update\<close> returned true; hence a field created with a maximal age \<open>N\<close> of at least
  one, wherever it stands in the live list, is in the list (with age \<open>k\<close>) after \<open>k\<close>
  passes for every \<open>k < N\<close>, and is not in it after \<open>N\<close> or more passes.
\<close>

theorem ForceField_lifetime:
  assumes "0 < N"
  shows "ForceField_update f = (f\<lparr>f_age := f_age f + 1\<rparr>, f_age f + 1 < f_max_age f) \<and>
         prune_force_fields fs = map fst (filter snd (map ForceField_update fs)) \<and>
         field_steps k (fs @ ForceField_init x y s r t N # gs) =
           field_steps k fs @
           (if int k < N then [(ForceField_init x y s r t N)\<lparr>f_age := int k\<rparr>] else []) @
           field_steps k gs"
proof -
  have "field_steps k [ForceField_init x y s r t N] =
          (if int k < N then [(ForceField_init x y s r t N)\<lparr>f_age := int k\<rparr>] else [])"
    using assms by (auto simp add: field_steps_eq ForceField_init_def)
  then have "field_steps k (fs @ [ForceField_init x y s r t N] @ gs) =
           field_steps k fs @
           (if int k < N then [(ForceField_init x y s r t N)\<lparr>f_age := int k\<rparr>] else []) @
           field_steps k gs"
    by (simp only: field_steps_append)
  then show ?thesis
    by (simp add: prune_force_fields_eq ForceField_update_def filter_map comp_def)
qed

theorem ForceField_lifetime_witness:
  "(0 :: int) < 3 \<and>
   field_steps 2 [ForceField_init 400 300 2 120 ''gravity'' 3] =
     [(ForceField_init 400 300 2 120 ''gravity'' 3)\<lparr>f_age := 2\<rparr>] \<and>
   field_steps 3 [ForceField_init 400 300 2 120 ''gravity'' 3] = []"
  using ForceField_lifetime [where N = 3 and k = 2 and fs = "[]" and gs = "[]"
      and x = 400 and y = 300 and s = 2 and r = 120 and t = "''gravity''"]
    ForceField_lifetime [where N = 3 and k = 3 and fs = "[]" and gs = "[]"
      and x = 400 and y = 300 and s = 2 and r = 120 and t = "''gravity''"]
  by simp

subsection \<open>The speed cap\<close>

text \<open>First in exact arithmetic.\<close>

lemma rescale_sq:
  fixes a b t :: real
  assumes "t * t = a * a + b * b" and "0 < t"
  shows "a * (15 / t) * (a * (15 / t)) + b * (15 / t) * (b * (15 / t)) = 225"
proof -
  have "a * (15 / t) * (a * (15 / t)) + b * (15 / t) * (b * (15 / t)) =
        225 * (a * a + b * b) / (t * t)"
    by (simp add: add_divide_distrib distrib_left mult.commute mult.left_commute)
  also have "\<dots> = 225 * (t * t) / (t * t)" by (simp only: assms(1))
  also have "\<dots> = 225" using assms(2) by simp
  finally show ?thesis .
qed

lemma damp_sq:
  fixes v :: real
  shows "(v * (- 0.6)) * (v * (- 0.6)) \<le> v * v"
proof -
  have "(v * (- 0.6)) * (v * (- 0.6)) = (9 / 25) * (v * v)" by simp
  also have "\<dots> \<le> v * v" using zero_le_square [of v] by linarith
  finally show ?thesis .
qed

lemma speed_limit_le:
  "p_vx (update_speed_limit p) * p_vx (update_speed_limit p) +
   p_vy (update_speed_limit p) * p_vy (update_speed_limit p) \<le> 225"
proof (cases "p_vx p * p_vx p + p_vy p * p_vy p > 225")
  case False
  then show ?thesis by (simp add: update_speed_limit_def Let_def)
next
  case True
  let ?s = "p_vx p * p_vx p + p_vy p * p_vy p"
  have pos: "0 < ?s" using True by simp
  have "sqrt ?s * sqrt ?s = ?s" using pos by simp
  moreover have "0 < sqrt ?s" using pos by simp
  ultimately have "p_vx p * (15 / sqrt ?s) * (p_vx p * (15 / sqrt ?s)) +
        p_vy p * (15 / sqrt ?s) * (p_vy p * (15 / sqrt ?s)) = 225"
    by (rule rescale_sq)
  then show ?thesis using True
    by (simp add: update_speed_limit_def Let_def)
qed

lemma bounds_speed_le:
  "p_vx (update_bounds p) * p_vx (update_bounds p) +
   p_vy (update_bounds p) * p_vy (update_bounds p) \<le> p_vx p * p_vx p + p_vy p * p_vy p"
  using damp_sq [of "p_vx p"] damp_sq [of "p_vy p"]
  by (simp add: update_bounds_def Let_def add_mono)

lemma energy_visuals_velocity:
  "update_energy_visuals p = Inr p' \<Longrightarrow> p_vx p' = p_vx p \<and> p_vy p' = p_vy p"
  by (auto simp add: update_energy_visuals_def Let_def split: if_splits)

text \<open>
  In exact arithmetic an \<open>update\<close> that returns leaves the squared speed at most 225:
  the rescaled velocity has squared speed exactly 225, and a bounce shrinks a component.
\<close>

lemma update_speed_cap_exact:
  assumes "Particle_update g force_fields p = Inr (p', dead)"
  shows "p_vx p' * p_vx p' + p_vy p' * p_vy p' \<le> 225"
proof -
  from assms obtain q where
    e: "update_energy_visuals
          (update_bounds (update_move (update_speed_limit (update_drag q)))) = Inr p'"
    by (auto simp add: Particle_update_Inr)
  let ?l = "update_speed_limit (update_drag q)"
  have "p_vx p' * p_vx p' + p_vy p' * p_vy p' =
        p_vx (update_bounds (update_move ?l)) * p_vx (update_bounds (update_move ?l)) +
        p_vy (update_bounds (update_move ?l)) * p_vy (update_bounds (update_move ?l))"
    using energy_visuals_velocity [OF e] by simp
  also have "\<dots> \<le> p_vx (update_move ?l) * p_vx (update_move ?l) +
                   p_vy (update_move ?l) * p_vy (update_move ?l)"
    by (rule bounds_speed_le)
  also have "\<dots> = p_vx ?l * p_vx ?l + p_vy ?l * p_vy ?l"
    by (simp add: update_move_def)
  also have "\<dots> \<le> 225" by (rule speed_limit_le)
  finally show ?thesis .
qed

lemma example_fast_speed_exact:
  "Particle_update example_settings [] example_fast = Inr (example_fast_next, False) \<and>
   p_vx example_fast_next * p_vx example_fast_next +
   p_vy example_fast_next * p_vy example_fast_next \<le> 225"
  using example_fast_update update_speed_cap_exact [OF example_fast_update]
  by simp

text \<open>Now with the rounding of the doubles: how \<open>double\<close> is evaluated, and its error.\<close>

lemma round_even_cases:
  fixes r :: real and f :: int
  assumes "f = \<lfloor>r\<rfloor>"
  shows "real_of_int f \<le> r \<and> r < real_of_int f + 1 \<and>
         round_even r =
           (if r - real_of_int f < 1 / 2 then f
            else if 1 / 2 < r - real_of_int f then f + 1
            else if even f then f else f + 1)"
proof -
  have "real_of_int \<lfloor>r\<rfloor> \<le> r" and "r < real_of_int \<lfloor>r\<rfloor> + 1" by linarith+
  then show ?thesis unfolding assms by (simp add: round_even_def Let_def)
qed

lemma round_even_error: "\<bar>real_of_int (round_even r) - r\<bar> \<le> 1 / 2"
proof -
  obtain f where f: "f = \<lfloor>r\<rfloor>" by simp
  note c = round_even_cases [OF f]
  show ?thesis
  proof (cases "r - real_of_int f < 1 / 2")
    case True
    with c show ?thesis by simp
  next
    case False
    with c have "round_even r = f \<and> r - real_of_int f = 1 / 2 \<or> round_even r = f + 1"
      by auto
    with c False show ?thesis by auto
  qed
qed

lemma round_even_eqI:
  assumes "real_of_int m - 1 / 2 < r" and "r < real_of_int m + 1 / 2"
  shows "round_even r = m"
proof -
  obtain f where f: "f = \<lfloor>r\<rfloor>" by simp
  note c = round_even_cases [OF f]
  from c assms have "real_of_int f < real_of_int m + 1 / 2"
    and "real_of_int m - 3 / 2 < real_of_int f" by linarith+
  then have "f \<le> m" and "m - 1 \<le> f" by linarith+
  then consider "f = m" | "f = m - 1" by linarith
  then show ?thesis
  proof cases
    case 1
    with c assms show ?thesis by simp
  next
    case 2
    with c assms have "1 / 2 < r - real_of_int f" by simp
    with c 2 show ?thesis by simp
  qed
qed

lemma round_even_tie:
  assumes "r = real_of_int m + 1 / 2"
  shows "round_even r = (if even m then m else m + 1)"
proof -
  have "\<lfloor>r\<rfloor> = m" using assms by linarith
  then show ?thesis using assms by (simp add: round_even_def Let_def)
qed

lemma floor_log2_eqI:
  assumes "2 powr real_of_int k \<le> x" and "x < 2 powr real_of_int (k + 1)"
  shows "\<lfloor>log 2 x\<rfloor> = k"
proof -
  have pos: "0 < x" using assms(1) powr_gt_zero [of 2 "real_of_int k"] by linarith
  have "real_of_int k \<le> log 2 x" using assms(1) pos by (simp add: le_log_iff)
  moreover have "log 2 x < real_of_int (k + 1)"
    using assms(2) pos by (simp add: log_less_iff)
  ultimately show ?thesis by linarith
qed

lemma double_eqI:
  assumes "2 powr real_of_int k \<le> \<bar>r\<bar>" and "\<bar>r\<bar> < 2 powr real_of_int (k + 1)"
    and "w = 2 powr real_of_int (k - 52)"
    and "real_of_int m - 1 / 2 < r / w" and "r / w < real_of_int m + 1 / 2"
  shows "double r = real_of_int m * w"
proof -
  have "r \<noteq> 0" using assms(1) powr_gt_zero [of 2 "real_of_int k"] by auto
  moreover have "\<lfloor>log 2 \<bar>r\<bar>\<rfloor> = k" using assms(1,2) by (rule floor_log2_eqI)
  moreover have "round_even (r / w) = m" using assms(4,5) by (rule round_even_eqI)
  ultimately show ?thesis by (simp add: double_def assms(3) Let_def)
qed

lemma double_tieI:
  assumes "2 powr real_of_int k \<le> \<bar>r\<bar>" and "\<bar>r\<bar> < 2 powr real_of_int (k + 1)"
    and "w = 2 powr real_of_int (k - 52)"
    and "r / w = real_of_int m + 1 / 2"
  shows "double r = real_of_int (if even m then m else m + 1) * w"
proof -
  have "r \<noteq> 0" using assms(1) powr_gt_zero [of 2 "real_of_int k"] by auto
  moreover have "\<lfloor>log 2 \<bar>r\<bar>\<rfloor> = k" using assms(1,2) by (rule floor_log2_eqI)
  moreover have "round_even (r / w) = (if even m then m else m + 1)"
    using assms(4) by (rule round_even_tie)
  ultimately show ?thesis by (simp add: double_def assms(3) Let_def)
qed

lemma double_error: "\<bar>double r - r\<bar> \<le> unit_roundoff * \<bar>r\<bar>"
proof (cases "r = 0")
  case True
  then show ?thesis by (simp add: double_def)
next
  case False
  define e where "e = \<lfloor>log 2 \<bar>r\<bar>\<rfloor>"
  define w where "w = 2 powr real_of_int (e - 52)"
  have w: "0 < w" by (simp add: w_def)
  have d: "double r = real_of_int (round_even (r / w)) * w"
    using False by (simp add: double_def w_def e_def Let_def)
  have "double r - r = (real_of_int (round_even (r / w)) - r / w) * w"
    using w by (simp add: d field_simps)
  then have "\<bar>double r - r\<bar> = \<bar>real_of_int (round_even (r / w)) - r / w\<bar> * w"
    using w by (simp add: abs_mult)
  also have "\<dots> \<le> 1 / 2 * w"
    using round_even_error [of "r / w"] w by (intro mult_right_mono) simp_all
  also have "1 / 2 * w = unit_roundoff * 2 powr real_of_int e"
  proof -
    have "w = 2 powr real_of_int e * 2 powr (- 52)"
      by (simp add: w_def powr_add [symmetric])
    then show ?thesis by (simp add: unit_roundoff_def powr_neg_numeral)
  qed
  also have "\<dots> \<le> unit_roundoff * \<bar>r\<bar>"
  proof -
    have "real_of_int e \<le> log 2 \<bar>r\<bar>" by (simp add: e_def)
    then have "2 powr real_of_int e \<le> \<bar>r\<bar>" using False by (simp add: le_log_iff)
    then show ?thesis by (simp add: unit_roundoff_def)
  qed
  finally show ?thesis .
qed


lemma unit_roundoff_bounds: "0 < unit_roundoff" "unit_roundoff < 1"
  by (simp_all add: unit_roundoff_def)

lemma double_lower:
  assumes "0 \<le> r"
  shows "r * (1 - unit_roundoff) \<le> double r"
proof -
  have "r - double r \<le> unit_roundoff * r"
    using double_error [of r] assms by (simp add: abs_le_iff)
  then show ?thesis by (simp add: algebra_simps)
qed

lemma double_abs_upper: "\<bar>double r\<bar> \<le> \<bar>r\<bar> * (1 + unit_roundoff)"
proof -
  have "\<bar>double r\<bar> \<le> \<bar>double r - r\<bar> + \<bar>r\<bar>" by simp
  also have "\<dots> \<le> unit_roundoff * \<bar>r\<bar> + \<bar>r\<bar>" using double_error [of r] by simp
  finally show ?thesis by (simp add: algebra_simps)
qed

lemma double_nonneg:
  assumes "0 \<le> r"
  shows "0 \<le> double r"
proof -
  have "0 \<le> r * (1 - unit_roundoff)"
    using assms unit_roundoff_bounds by simp
  with double_lower [OF assms] show ?thesis by linarith
qed

lemma cap_chain:
  fixes a b S s c x y u :: real
  assumes u: "0 < u" "u < 1"
    and S: "(a * a + b * b) * (1 - u)\<^sup>2 \<le> S" "0 < S"
    and s: "sqrt S * (1 - u) \<le> s"
    and c: "\<bar>c\<bar> \<le> 15 / s * (1 + u)"
    and x: "\<bar>x\<bar> \<le> \<bar>a * c\<bar> * (1 + u)"
    and y: "\<bar>y\<bar> \<le> \<bar>b * c\<bar> * (1 + u)"
  shows "x * x + y * y \<le> 225 * ((1 + u) / (1 - u)) ^ 4"
proof -
  have u1: "0 < 1 - u" "0 < 1 + u" using u by simp_all
  have rS: "0 < sqrt S" using S(2) by simp
  have spos: "0 < s"
  proof -
    have "0 < sqrt S * (1 - u)" using rS u1 by simp
    with s show ?thesis by linarith
  qed
  have s2: "S * (1 - u)\<^sup>2 \<le> s\<^sup>2"
  proof -
    have "(sqrt S * (1 - u))\<^sup>2 \<le> s\<^sup>2"
      using s rS u1 by (intro power_mono) simp_all
    then show ?thesis using S(2) by (simp add: power_mult_distrib)
  qed
  have c2: "c\<^sup>2 \<le> 225 * (1 + u)\<^sup>2 / (S * (1 - u)\<^sup>2)"
  proof -
    have "c\<^sup>2 = \<bar>c\<bar>\<^sup>2" by simp
    also have "\<dots> \<le> (15 / s * (1 + u))\<^sup>2"
      using c by (intro power_mono) simp_all
    also have "\<dots> = 225 * (1 + u)\<^sup>2 / s\<^sup>2"
    proof -
      have "(15 / s * (1 + u))\<^sup>2 = (15 / s)\<^sup>2 * (1 + u)\<^sup>2"
        by (rule power_mult_distrib)
      also have "(15 / s)\<^sup>2 = 225 / s\<^sup>2" by (simp add: power_divide)
      finally show ?thesis by simp
    qed
    also have "\<dots> \<le> 225 * (1 + u)\<^sup>2 / (S * (1 - u)\<^sup>2)"
    proof (rule divide_left_mono)
      show "S * (1 - u)\<^sup>2 \<le> s\<^sup>2" by (rule s2)
      show "0 \<le> 225 * (1 + u)\<^sup>2" by simp
      have "0 < s\<^sup>2" using spos by simp
      moreover have "0 < S * (1 - u)\<^sup>2" using S(2) u1 by simp
      ultimately show "0 < s\<^sup>2 * (S * (1 - u)\<^sup>2)" by (rule mult_pos_pos)
    qed
    finally show ?thesis .
  qed
  have x2: "x * x \<le> (a * a) * c\<^sup>2 * (1 + u)\<^sup>2"
  proof -
    have "x * x = \<bar>x\<bar>\<^sup>2" by (simp add: power2_eq_square)
    also have "\<dots> \<le> (\<bar>a * c\<bar> * (1 + u))\<^sup>2"
      using x by (intro power_mono) simp_all
    also have "\<dots> = (a * a) * c\<^sup>2 * (1 + u)\<^sup>2"
      by (simp add: power_mult_distrib power2_eq_square)
    finally show ?thesis .
  qed
  have y2: "y * y \<le> (b * b) * c\<^sup>2 * (1 + u)\<^sup>2"
  proof -
    have "y * y = \<bar>y\<bar>\<^sup>2" by (simp add: power2_eq_square)
    also have "\<dots> \<le> (\<bar>b * c\<bar> * (1 + u))\<^sup>2"
      using y by (intro power_mono) simp_all
    also have "\<dots> = (b * b) * c\<^sup>2 * (1 + u)\<^sup>2"
      by (simp add: power_mult_distrib power2_eq_square)
    finally show ?thesis .
  qed
  have ab: "a * a + b * b \<le> S / (1 - u)\<^sup>2"
    using S(1) u1 by (simp add: pos_le_divide_eq)
  have "x * x + y * y \<le> (a * a + b * b) * (c\<^sup>2 * (1 + u)\<^sup>2)"
    using x2 y2 by (simp add: algebra_simps)
  also have "\<dots> \<le> S / (1 - u)\<^sup>2 * (c\<^sup>2 * (1 + u)\<^sup>2)"
    using ab by (intro mult_right_mono) simp_all
  also have "\<dots> \<le> S / (1 - u)\<^sup>2 * (225 * (1 + u)\<^sup>2 / (S * (1 - u)\<^sup>2) * (1 + u)\<^sup>2)"
    using c2 S(2) u1 by (intro mult_left_mono mult_right_mono) simp_all
  also have "\<dots> = 225 * ((1 + u) / (1 - u)) ^ 4"
  proof -
    have "((1 + u) / (1 - u)) ^ 4 = ((1 + u)\<^sup>2 * (1 + u)\<^sup>2) / ((1 - u)\<^sup>2 * (1 - u)\<^sup>2)"
      by (simp add: power_divide power2_eq_square power4_eq_xxxx mult.assoc)
    then show ?thesis using S(2) u1 by simp
  qed
  finally show ?thesis .
qed


lemma sum_squares_lower:
  "(a * a + b * b) * (1 - unit_roundoff)\<^sup>2 \<le> double (double (a * a) + double (b * b))"
proof -
  note u = unit_roundoff_bounds
  have P: "a * a * (1 - unit_roundoff) \<le> double (a * a)" by (intro double_lower) simp
  have Q: "b * b * (1 - unit_roundoff) \<le> double (b * b)" by (intro double_lower) simp
  have T: "(a * a + b * b) * (1 - unit_roundoff) \<le> double (a * a) + double (b * b)"
    using P Q by (simp add: algebra_simps)
  have T0: "0 \<le> double (a * a) + double (b * b)"
    using double_nonneg [of "a * a"] double_nonneg [of "b * b"] by simp
  have "(a * a + b * b) * (1 - unit_roundoff)\<^sup>2 =
        (a * a + b * b) * (1 - unit_roundoff) * (1 - unit_roundoff)"
    by (simp add: power2_eq_square)
  also have "\<dots> \<le> (double (a * a) + double (b * b)) * (1 - unit_roundoff)"
    using T u by (intro mult_right_mono) simp_all
  also have "\<dots> \<le> double (double (a * a) + double (b * b))"
    using T0 by (rule double_lower)
  finally show ?thesis .
qed

lemma speed_limit_double_bound:
  "p_vx (update_speed_limit_double q) * p_vx (update_speed_limit_double q) +
   p_vy (update_speed_limit_double q) * p_vy (update_speed_limit_double q) \<le> speed_cap_double"
proof -
  note u = unit_roundoff_bounds
  let ?a = "p_vx q" and ?b = "p_vy q"
  let ?S = "double (double (?a * ?a) + double (?b * ?b))"
  have low: "(?a * ?a + ?b * ?b) * (1 - unit_roundoff)\<^sup>2 \<le> ?S" by (rule sum_squares_lower)
  show ?thesis
  proof (cases "?S > 225")
    case True
    let ?s = "double (sqrt ?S)"
    let ?c = "double (15 / ?s)"
    have S0: "0 < ?S" using True by simp
    have s: "sqrt ?S * (1 - unit_roundoff) \<le> ?s" using S0 by (intro double_lower) simp
    have c: "\<bar>?c\<bar> \<le> 15 / ?s * (1 + unit_roundoff)"
    proof -
      have "0 < sqrt ?S * (1 - unit_roundoff)" using S0 u by simp
      with s have "0 < ?s" by linarith
      then have "\<bar>15 / ?s\<bar> = 15 / ?s" by simp
      with double_abs_upper [of "15 / ?s"] show ?thesis by simp
    qed
    have "double (?a * ?c) * double (?a * ?c) + double (?b * ?c) * double (?b * ?c) \<le>
          225 * ((1 + unit_roundoff) / (1 - unit_roundoff)) ^ 4"
      using u low S0 s c double_abs_upper [of "?a * ?c"] double_abs_upper [of "?b * ?c"]
      by (rule cap_chain)
    with True show ?thesis
      by (simp add: update_speed_limit_double_def Let_def speed_cap_double_def)
  next
    case False
    have "?a * ?a + ?b * ?b \<le> ?S / (1 - unit_roundoff)\<^sup>2"
      using low u by (simp add: pos_le_divide_eq)
    also have "\<dots> \<le> 225 / (1 - unit_roundoff)\<^sup>2"
      using False u by (intro divide_right_mono) simp_all
    also have "\<dots> \<le> speed_cap_double"
    proof -
      have "1 \<le> (1 + unit_roundoff) ^ 4" using u by (intro one_le_power) simp
      moreover have "(1 - unit_roundoff) ^ 4 \<le> (1 - unit_roundoff)\<^sup>2"
        using u by (intro power_decreasing) simp_all
      moreover have "0 < (1 - unit_roundoff) ^ 4" using u by simp
      ultimately have "1 / (1 - unit_roundoff)\<^sup>2 \<le>
          (1 + unit_roundoff) ^ 4 / (1 - unit_roundoff) ^ 4"
        using u by (intro frac_le) simp_all
      then show ?thesis by (simp add: speed_cap_double_def power_divide)
    qed
    finally show ?thesis using False
      by (simp add: update_speed_limit_double_def Let_def)
  qed
qed

lemma bounce_double_le: "double (v * (- double 0.6)) * double (v * (- double 0.6)) \<le> v * v"
proof -
  note u = unit_roundoff_bounds
  have k: "\<bar>double 0.6\<bar> \<le> 0.6 * (1 + unit_roundoff)"
    using double_abs_upper [of "0.6"] by simp
  have "\<bar>double (v * (- double 0.6))\<bar> \<le> \<bar>v * (- double 0.6)\<bar> * (1 + unit_roundoff)"
    by (rule double_abs_upper)
  also have "\<dots> = \<bar>v\<bar> * \<bar>double 0.6\<bar> * (1 + unit_roundoff)"
    by (simp add: abs_mult)
  also have "\<dots> \<le> \<bar>v\<bar> * (0.6 * (1 + unit_roundoff)) * (1 + unit_roundoff)"
    using k u by (intro mult_right_mono mult_left_mono) simp_all
  also have "\<dots> = \<bar>v\<bar> * (0.6 * (1 + unit_roundoff)\<^sup>2)"
    by (simp add: power2_eq_square)
  also have "\<dots> \<le> \<bar>v\<bar> * 1"
  proof (rule mult_left_mono)
    show "0.6 * (1 + unit_roundoff)\<^sup>2 \<le> 1"
      by (simp add: unit_roundoff_def power2_eq_square)
    show "0 \<le> \<bar>v\<bar>" by simp
  qed
  finally have "\<bar>double (v * (- double 0.6))\<bar> \<le> \<bar>v\<bar>" by simp
  then have "(double (v * (- double 0.6)))\<^sup>2 \<le> v\<^sup>2" by (simp add: abs_le_square_iff)
  then show ?thesis by (simp add: power2_eq_square)
qed

lemma bounds_double_speed_le:
  "p_vx (update_bounds_double p) * p_vx (update_bounds_double p) +
   p_vy (update_bounds_double p) * p_vy (update_bounds_double p) \<le>
   p_vx p * p_vx p + p_vy p * p_vy p"
  using bounce_double_le [of "p_vx p"] bounce_double_le [of "p_vy p"]
  by (simp add: update_bounds_double_def Let_def add_mono)

text \<open>
  Claim C6, as amended. Whatever velocity turbulence, fields and drag have left, after
  speed limit, move and bounds in double arithmetic the squared speed
  \<open>vx * vx + vy * vy\<close> is at most \<open>225 * ((1 + 2 ^ -53) / (1 - 2 ^ -53)) ^ 4\<close>, which is
  less than \<open>225 + 10 ^ -12\<close>: the limit of 225 holds up to the rounding of the
  operations involved. No later line of \<open>update\<close> assigns the velocity.
\<close>

theorem speed_cap_up_to_rounding:
  "p_vx (update_bounds_double (update_move_double (update_speed_limit_double q))) *
   p_vx (update_bounds_double (update_move_double (update_speed_limit_double q))) +
   p_vy (update_bounds_double (update_move_double (update_speed_limit_double q))) *
   p_vy (update_bounds_double (update_move_double (update_speed_limit_double q)))
     \<le> speed_cap_double \<and>
   speed_cap_double < 225 + 1 / 10 ^ 12"
proof
  let ?l = "update_speed_limit_double q"
  have "p_vx (update_bounds_double (update_move_double ?l)) *
        p_vx (update_bounds_double (update_move_double ?l)) +
        p_vy (update_bounds_double (update_move_double ?l)) *
        p_vy (update_bounds_double (update_move_double ?l)) \<le>
        p_vx (update_move_double ?l) * p_vx (update_move_double ?l) +
        p_vy (update_move_double ?l) * p_vy (update_move_double ?l)"
    by (rule bounds_double_speed_le)
  also have "\<dots> = p_vx ?l * p_vx ?l + p_vy ?l * p_vy ?l"
    by (simp add: update_move_double_def)
  also have "\<dots> \<le> speed_cap_double" by (rule speed_limit_double_bound)
  finally show "p_vx (update_bounds_double (update_move_double ?l)) *
        p_vx (update_bounds_double (update_move_double ?l)) +
        p_vy (update_bounds_double (update_move_double ?l)) *
        p_vy (update_bounds_double (update_move_double ?l)) \<le> speed_cap_double" .
  show "speed_cap_double < 225 + 1 / 10 ^ 12"
    by (simp add: speed_cap_double_def unit_roundoff_def power_divide)
qed


text \<open>The run of lines 161 to 182 from \<open>vx = 30\<close>, \<open>vy = 40\<close>, rounding by rounding.\<close>

lemma example_fast_double_velocity:
  "p_vx (update_bounds_double (update_move_double (update_speed_limit_double
      (update_drag_double example_fast)))) = 9 \<and>
   p_vy (update_bounds_double (update_move_double (update_speed_limit_double
      (update_drag_double example_fast)))) = 12 + 1 / 2 ^ 49"
proof -
  define d :: real where "d = 8827055269646172 / 2 ^ 53"
  define vx1 :: real where "vx1 = 8275364315293286 / 2 ^ 48"
  define vy1 :: real where "vy1 = 5516909543528858 / 2 ^ 47"
  define P :: real where "P = 7602990964675706 / 2 ^ 43"
  define Q :: real where "Q = 6758214190822852 / 2 ^ 42"
  define c :: real where "c = 5514611788616934 / 2 ^ 54"
  define vy2 :: real where "vy2 = 12 + 1 / 2 ^ 49"
  define my :: real where "my = 6755399441055745 / 2 ^ 48"
  have r1: "double t = d" if "t = 0.98" for t
    unfolding that d_def
    using double_eqI [where r = "0.98" and k = "- 1" and m = 8827055269646172
        and w = "1 / 2 ^ 53"]
    by (simp add: powr_neg_numeral powr_minus)
  have r2: "double t = vx1" if "t = 30 * d" for t
    unfolding that d_def vx1_def
    using double_eqI [where r = "30 * (8827055269646172 / 2 ^ 53)" and k = 4
        and m = 8275364315293286 and w = "1 / 2 ^ 48"]
    by (simp add: powr_neg_numeral powr_minus)
  have r3: "double t = vy1" if "t = 40 * d" for t
    unfolding that d_def vy1_def
    using double_tieI [where r = "40 * (8827055269646172 / 2 ^ 53)" and k = 5
        and m = 5516909543528857 and w = "1 / 2 ^ 47"]
    by (simp add: powr_neg_numeral powr_minus)
  have r4: "double t = P" if "t = vx1 * vx1" for t
    unfolding that vx1_def P_def
    using double_eqI [where r = "(8275364315293286 / 2 ^ 48) * (8275364315293286 / 2 ^ 48)"
        and k = 9 and m = 7602990964675706 and w = "1 / 2 ^ 43"]
    by (simp add: powr_neg_numeral powr_minus)
  have r5: "double t = Q" if "t = vy1 * vy1" for t
    unfolding that vy1_def Q_def
    using double_eqI [where r = "(5516909543528858 / 2 ^ 47) * (5516909543528858 / 2 ^ 47)"
        and k = 10 and m = 6758214190822852 and w = "1 / 2 ^ 42"]
    by (simp add: powr_neg_numeral powr_minus)
  have r6: "double t = 2401" if "t = P + Q" for t
    unfolding that P_def Q_def
    using double_tieI [where r = "7602990964675706 / 2 ^ 43 + 6758214190822852 / 2 ^ 42"
        and k = 11 and m = 5279854836580352 and w = "1 / 2 ^ 41"]
    by (simp add: powr_neg_numeral powr_minus)
  have r7: "double t = 49" if "t = 49" for t
    unfolding that
    using double_eqI [where r = 49 and k = 5 and m = 6896136929411072 and w = "1 / 2 ^ 47"]
    by (simp add: powr_neg_numeral powr_minus)
  have r8: "double t = c" if "t = 15 / 49" for t
    unfolding that c_def
    using double_eqI [where r = "15 / 49" and k = "- 2" and m = 5514611788616934
        and w = "1 / 2 ^ 54"]
    by (simp add: powr_neg_numeral powr_minus)
  have r9: "double t = 9" if "t = vx1 * c" for t
    unfolding that vx1_def c_def
    using double_eqI [where r = "(8275364315293286 / 2 ^ 48) * (5514611788616934 / 2 ^ 54)"
        and k = 3 and m = 5066549580791808 and w = "1 / 2 ^ 49"]
    by (simp add: powr_neg_numeral powr_minus)
  have r10: "double t = vy2" if "t = vy1 * c" for t
    unfolding that vy1_def c_def vy2_def
    using double_eqI [where r = "(5516909543528858 / 2 ^ 47) * (5514611788616934 / 2 ^ 54)"
        and k = 3 and m = 6755399441055745 and w = "1 / 2 ^ 49"]
    by (simp add: powr_neg_numeral powr_minus)
  have r11: "double t = 18" if "t = 18" for t
    unfolding that
    using double_eqI [where r = 18 and k = 4 and m = 5066549580791808 and w = "1 / 2 ^ 48"]
    by (simp add: powr_neg_numeral powr_minus)
  have r12: "double t = my" if "t = vy2 * 2" for t
    unfolding that vy2_def my_def
    using double_eqI [where r = "(12 + 1 / 2 ^ 49) * 2" and k = 4 and m = 6755399441055745
        and w = "1 / 2 ^ 48"]
    by (simp add: powr_neg_numeral powr_minus)
  have r13: "double t = 518" if "t = 518" for t
    unfolding that
    using double_eqI [where r = 518 and k = 9 and m = 4556376185503744 and w = "1 / 2 ^ 43"]
    by (simp add: powr_neg_numeral powr_minus)
  have r14: "double t = 374" if "t = 350 + my" for t
    unfolding that my_def
    using double_eqI [where r = "350 + 6755399441055745 / 2 ^ 48" and k = 8
        and m = 6579477580611584 and w = "1 / 2 ^ 44"]
    by (simp add: powr_neg_numeral powr_minus)
  let ?p0 = "example_fast"
  let ?p1 = "update_drag_double ?p0"
  have p1: "p_vx ?p1 = vx1" "p_vy ?p1 = vy1" "p_x ?p1 = 500" "p_y ?p1 = 350"
    by (simp_all add: update_drag_double_def Let_def example_fast_def example_particle_def
        r1 r2 r3)
  let ?p2 = "update_speed_limit_double ?p1"
  have S: "double (double (vx1 * vx1) + double (vy1 * vy1)) = 2401"
    by (simp add: r4 r5 r6)
  have p2: "p_vx ?p2 = 9" "p_vy ?p2 = vy2" "p_x ?p2 = 500" "p_y ?p2 = 350"
    by (simp_all add: update_speed_limit_double_def Let_def p1 S sqrt_2401 r7 r8 r9 r10)
  let ?p3 = "update_move_double ?p2"
  have p3: "p_vx ?p3 = 9" "p_vy ?p3 = vy2" "p_x ?p3 = 518" "p_y ?p3 = 374"
    by (simp_all add: update_move_double_def p2 r11 r12 r13 r14)
  let ?p4 = "update_bounds_double ?p3"
  have p4: "p_vx ?p4 = 9" "p_vy ?p4 = vy2"
    by (simp_all add: update_bounds_double_def Let_def p3 WIDTH_def HEIGHT_def)
  from p4 show ?thesis by (simp add: vy2_def)
qed

text \<open>
  The limit of 225 itself is exceeded. From \<open>vx = 30\<close>, \<open>vy = 40\<close> with the drag 0.98 of
  kind NORMAL, no field and no turbulence, the code computes \<open>speed_sq = 2401.0\<close> and
  \<open>scale = 15.0 / 49.0\<close>, and the rounded products are \<open>9.0\<close> and
  \<open>12.000000000000002\<close>, that is \<open>12 + 2 ^ -49\<close>.
\<close>

theorem speed_cap_exceeded_counterexample:
  "p_vx (update_bounds_double (update_move_double (update_speed_limit_double
      (update_drag_double example_fast)))) = 9 \<and>
   p_vy (update_bounds_double (update_move_double (update_speed_limit_double
      (update_drag_double example_fast)))) = 12 + 1 / 2 ^ 49 \<and>
   225 <
     p_vx (update_bounds_double (update_move_double (update_speed_limit_double
        (update_drag_double example_fast)))) *
     p_vx (update_bounds_double (update_move_double (update_speed_limit_double
        (update_drag_double example_fast)))) +
     p_vy (update_bounds_double (update_move_double (update_speed_limit_double
        (update_drag_double example_fast)))) *
     p_vy (update_bounds_double (update_move_double (update_speed_limit_double
        (update_drag_double example_fast))))"
proof -
  have "225 < (9 :: real) * 9 + (12 + 1 / 2 ^ 49) * (12 + 1 / 2 ^ 49)" by simp
  then show ?thesis by (simp only: example_fast_double_velocity simp_thms)
qed


subsection \<open>Size and trail\<close>

lemma ease_nonneg:
  fixes s t :: real
  assumes "0 \<le> s" and "0 \<le> t"
  shows "0 \<le> s + (t - s) * 0.1"
  using assms by (simp add: field_simps)

lemma update_preserves_invariant:
  assumes "size_trail_invariant p" and "Particle_update g ffs p = Inr (p', dead)"
  shows "size_trail_invariant p'"
proof -
  obtain m where
    m: "without_motion m = without_motion (update_age_trail p)" and
    e: "update_energy_visuals m = Inr p'"
    using Particle_update_frame [OF assms(2)] by blast
  let ?a = "update_age_trail p"
  have a: "p_size ?a = p_size p" "p_target_size ?a = p_target_size p"
    "p_base_size ?a = p_base_size p" "p_max_trail ?a = p_max_trail p"
    "length (p_trail ?a) \<le> 6"
    using assms(1) by (auto simp add: update_age_trail_def size_trail_invariant_def Let_def)
  note f = without_motion_fields [OF m]
  note v = energy_visuals_fields [OF e]
  have s: "0 \<le> p_size p'"
    unfolding v(1) using assms(1)
    by (intro ease_nonneg) (simp_all add: f a size_trail_invariant_def)
  have b: "0 \<le> p_base_size m"
    using assms(1) a by (simp add: f size_trail_invariant_def)
  have t: "0 \<le> p_target_size p'"
    unfolding v(2) using s b by (auto simp add: max_def min_def)
  show ?thesis
    unfolding size_trail_invariant_def
    using s t b assms(1) a by (simp add: v(3-5) f size_trail_invariant_def)
qed

lemma Particle_steps_invariant:
  assumes "size_trail_invariant p" and "Particle_steps g frames p = Inr (p', dropped)"
  shows "size_trail_invariant p'"
  using assms
proof (induction frames arbitrary: p)
  case Nil
  then show ?case by simp
next
  case (Cons ffs frames)
  from Cons.prems(2) obtain q dead where
    u: "Particle_update g ffs p = Inr (q, dead)" and
    r: "(if dead then Inr (q, True) else Particle_steps g frames q) = Inr (p', dropped)"
    by (auto simp add: and_then_Inr)
  have q: "size_trail_invariant q"
    using update_preserves_invariant [OF Cons.prems(1) u] .
  show ?case
  proof (cases dead)
    case True
    with r q show ?thesis by simp
  next
    case False
    with r have "Particle_steps g frames q = Inr (p', dropped)" by simp
    from Cons.IH [OF q this] show ?thesis .
  qed
qed

lemma Particle_init_invariant:
  assumes "init_draws_ok d" and "0 \<le> particle_size_multiplier g"
    and "Particle_init g x y particle_type d = Inr p"
  shows "size_trail_invariant p"
  using assms
  by (auto simp add: Particle_init_def init_draws_ok_def size_trail_invariant_def Let_def
      split: option.splits)

lemma update_trail:
  assumes "Particle_update g ffs p = Inr (p', dead)"
  shows "p_trail p' =
           (if int (length (p_trail p @ [(p_x p, p_y p)])) > p_max_trail p
            then tl (p_trail p @ [(p_x p, p_y p)]) else p_trail p @ [(p_x p, p_y p)])"
proof -
  obtain m where
    m: "without_motion m = without_motion (update_age_trail p)" and
    e: "update_energy_visuals m = Inr p'"
    using Particle_update_frame [OF assms] by blast
  have "p_trail p' = p_trail (update_age_trail p)"
    by (simp add: energy_visuals_fields(4) [OF e] without_motion_fields(5) [OF m])
  then show ?thesis
    by (simp add: update_age_trail_def Let_def)
qed

text \<open>
  Claim C7, as amended. A particle built by \<open>Particle.__init__\<close> (draws in their
  ranges, size multiplier not negative) has a size, a target size and a base size that
  are not negative, a trail of at most 6 positions and \<open>max_trail\<close> at most 6. Every
  \<open>update\<close> that returns preserves these five conditions together; it appends the
  position to the trail and drops the oldest entry when the trail is then longer than
  \<open>max_trail\<close>. Hence after any number of passes of the main loop the size is not
  negative and the trail holds at most 6 positions.
\<close>

theorem size_trail_invariant_preserved:
  "(init_draws_ok d \<and> 0 \<le> particle_size_multiplier g \<and>
      Particle_init g x y particle_type d = Inr p0 \<longrightarrow> size_trail_invariant p0) \<and>
   (size_trail_invariant p \<and> Particle_update g force_fields p = Inr (p', dead) \<longrightarrow>
      size_trail_invariant p' \<and>
      p_trail p' =
        (if int (length (p_trail p @ [(p_x p, p_y p)])) > p_max_trail p
         then tl (p_trail p @ [(p_x p, p_y p)]) else p_trail p @ [(p_x p, p_y p)])) \<and>
   (size_trail_invariant q \<and> Particle_steps g frames q = Inr (q', dropped) \<longrightarrow>
      0 \<le> p_size q' \<and> length (p_trail q') \<le> 6)"
proof (intro conjI impI)
  assume "init_draws_ok d \<and> 0 \<le> particle_size_multiplier g \<and>
      Particle_init g x y particle_type d = Inr p0"
  then show "size_trail_invariant p0"
    using Particle_init_invariant by blast
next
  assume a: "size_trail_invariant p \<and> Particle_update g force_fields p = Inr (p', dead)"
  then show "size_trail_invariant p'"
    using update_preserves_invariant by blast
  from a show "p_trail p' =
        (if int (length (p_trail p @ [(p_x p, p_y p)])) > p_max_trail p
         then tl (p_trail p @ [(p_x p, p_y p)]) else p_trail p @ [(p_x p, p_y p)])"
    using update_trail by blast
next
  assume "size_trail_invariant q \<and> Particle_steps g frames q = Inr (q', dropped)"
  then have "size_trail_invariant q'"
    using Particle_steps_invariant by blast
  then show "0 \<le> p_size q'" and "length (p_trail q') \<le> 6"
    by (simp_all add: size_trail_invariant_def)
qed

lemma example_fast_steps:
  "Particle_steps example_settings [[]] example_fast = Inr (example_fast_next, False)"
  by (simp add: example_fast_update and_then_def)

lemma example_fast_invariant: "size_trail_invariant example_fast"
  by (simp add: size_trail_invariant_def example_fast_def example_particle_def)

lemma example_draws_ok: "init_draws_ok example_draws"
  by (simp add: init_draws_ok_def example_draws_def)

theorem size_trail_invariant_preserved_witness:
  "(init_draws_ok example_draws \<and> 0 \<le> particle_size_multiplier example_settings \<and>
      Particle_init example_settings 500 350 ''NORMAL'' example_draws = Inr example_particle) \<and>
   size_trail_invariant example_particle \<and>
   (size_trail_invariant example_fast \<and>
      Particle_update example_settings [] example_fast = Inr (example_fast_next, False)) \<and>
   size_trail_invariant example_fast_next \<and>
   p_trail example_fast_next = [(500, 350)] \<and>
   Particle_steps example_settings [[]] example_fast = Inr (example_fast_next, False) \<and>
   0 \<le> p_size example_fast_next \<and> length (p_trail example_fast_next) \<le> 6"
proof -
  note t = size_trail_invariant_preserved [where d = example_draws and g = example_settings
      and x = 500 and y = 350 and particle_type = "''NORMAL''" and ?p0.0 = example_particle
      and p = example_fast and force_fields = "[]" and p' = example_fast_next
      and dead = False and q = example_fast and frames = "[[]]" and q' = example_fast_next
      and dropped = False]
  have i: "init_draws_ok example_draws \<and> 0 \<le> particle_size_multiplier example_settings \<and>
      Particle_init example_settings 500 350 ''NORMAL'' example_draws = Inr example_particle"
    using example_draws_ok example_particle_init by (simp add: example_settings_def)
  have u: "size_trail_invariant example_fast \<and>
      Particle_update example_settings [] example_fast = Inr (example_fast_next, False)"
    using example_fast_invariant example_fast_update by simp
  have s: "size_trail_invariant example_fast \<and>
      Particle_steps example_settings [[]] example_fast = Inr (example_fast_next, False)"
    using example_fast_invariant example_fast_steps by simp
  have c1: "size_trail_invariant example_particle" using t i by blast
  have c2: "size_trail_invariant example_fast_next" using t u by blast
  have c3: "0 \<le> p_size example_fast_next \<and> length (p_trail example_fast_next) \<le> 6"
    using t s by blast
  have c4: "p_trail example_fast_next = [(500, 350)]"
    by (simp add: example_fast_next_def)
  from i u s c1 c2 c3 c4 show ?thesis by blast
qed

text \<open>
  The two bounds alone are not preserved: a state within both bounds whose target size
  is negative gets a negative size, and one whose \<open>max_trail\<close> is 10 gets a trail of
  7 positions.
\<close>

theorem size_trail_not_inductive_counterexample:
  "(0 \<le> p_size example_sinking \<and> length (p_trail example_sinking) \<le> 6 \<and>
    Particle_update example_settings [] example_sinking = Inr (example_sinking_next, False) \<and>
    p_size example_sinking_next < 0) \<and>
   (0 \<le> p_size example_long_trail \<and> length (p_trail example_long_trail) \<le> 6 \<and>
    Particle_update example_settings [] example_long_trail =
      Inr (example_long_trail_next, False) \<and>
    length (p_trail example_long_trail_next) = 7)"
proof -
  have 1: "Particle_update example_settings [] example_sinking =
             Inr (example_sinking_next, False)"
    by (simp add: update_defs example_settings_def example_particle_def example_sinking_def
        example_sinking_next_def)
  have 2: "Particle_update example_settings [] example_long_trail =
             Inr (example_long_trail_next, False)"
    by (simp add: update_defs example_settings_def example_particle_def
        example_long_trail_def example_long_trail_next_def numeral_eq_Suc)
  show ?thesis
    by (simp add: 1 2)
      (simp add: example_sinking_def example_sinking_next_def example_long_trail_def
        example_long_trail_next_def example_particle_def)
qed

subsection \<open>Gravity against repulsion\<close>

text \<open>
  Claim C8. For one particle, a \<open>gravity\<close> field and a \<open>repulsion\<close> field with the
  same position and the same strength, both reaching the particle (neither pass of the
  loop body ends in \<open>continue\<close>), contribute accelerations \<open>(ax, ay)\<close> that are
  exactly opposite.
\<close>

theorem gravity_repulsion_opposite:
  assumes "f_field_type fg = ''gravity''" and "f_field_type fr = ''repulsion''"
    and "f_x fr = f_x fg" and "f_y fr = f_y fg" and "f_strength fr = f_strength fg"
    and "field_acceleration p fg = Inr (Some (ax_g, ay_g))"
    and "field_acceleration p fr = Inr (Some (ax_r, ay_r))"
  shows "ax_r = - ax_g \<and> ay_r = - ay_g"
  using assms
  by (auto simp add: field_acceleration_def Let_def split: if_splits)

theorem gravity_repulsion_opposite_witness:
  "f_field_type example_gravity = ''gravity'' \<and> f_field_type example_repulsion = ''repulsion'' \<and>
   f_x example_repulsion = f_x example_gravity \<and> f_y example_repulsion = f_y example_gravity \<and>
   f_strength example_repulsion = f_strength example_gravity \<and>
   field_acceleration example_particle example_gravity = Inr (Some (0.192, 0.256)) \<and>
   field_acceleration example_particle example_repulsion = Inr (Some (- 0.192, - 0.256)) \<and>
   - 0.192 = - (0.192 :: real) \<and> - 0.256 = - (0.256 :: real)"
proof -
  have h: "f_field_type example_gravity = ''gravity''"
    "f_field_type example_repulsion = ''repulsion''"
    "f_x example_repulsion = f_x example_gravity"
    "f_y example_repulsion = f_y example_gravity"
    "f_strength example_repulsion = f_strength example_gravity"
    by (simp_all add: example_gravity_def example_repulsion_def ForceField_init_def)
  from gravity_repulsion_opposite [OF h example_gravity_acceleration
      example_repulsion_acceleration] h example_gravity_acceleration
    example_repulsion_acceleration
  show ?thesis by simp
qed

subsection \<open>Energy\<close>

text \<open>For a single particle the prune of the main loop is one step of \<open>Particle_steps\<close>.\<close>

lemma prune_particles_single:
  "prune_particles g ffs [p] =
     and_then (Particle_update g ffs p) (\<lambda>(p', dead). Inr (if dead then [] else [p']))"
  by (cases "Particle_update g ffs p") (auto simp add: and_then_def)

lemma update_energy:
  assumes "Particle_update g ffs p = Inr (p', dead)"
  shows "p_energy p' = p_energy p" and "p_age p' = p_age p + 1" and "p_max_age p' = p_max_age p"
    and "dead \<longleftrightarrow> p_age p + 1 > p_max_age p \<or> p_energy p \<le> 0"
proof -
  obtain m where
    m: "without_motion m = without_motion (update_age_trail p)" and
    e: "update_energy_visuals m = Inr p'" and
    d: "dead = (p_age p' > p_max_age p' \<or> p_energy p' \<le> 0)"
    using Particle_update_frame [OF assms] by blast
  note f = without_motion_fields [OF m]
  note v = energy_visuals_fields [OF e]
  show 1: "p_energy p' = p_energy p"
    by (simp add: v f update_age_trail_def Let_def)
  show 2: "p_age p' = p_age p + 1"
    by (simp add: v f update_age_trail_def Let_def)
  show 3: "p_max_age p' = p_max_age p"
    by (simp add: v f update_age_trail_def Let_def)
  show "dead \<longleftrightarrow> p_age p + 1 > p_max_age p \<or> p_energy p \<le> 0"
    by (simp add: d 1 2 3)
qed

lemma Particle_steps_energy:
  assumes "Particle_steps g frames p = Inr (p', dropped)"
  shows "p_energy p' = p_energy p \<and> (0 < p_energy p \<and> dropped \<longrightarrow> p_age p' > p_max_age p')"
  using assms
proof (induction frames arbitrary: p)
  case Nil
  then show ?case by simp
next
  case (Cons ffs frames)
  from Cons.prems obtain q dead where
    u: "Particle_update g ffs p = Inr (q, dead)" and
    r: "(if dead then Inr (q, True) else Particle_steps g frames q) = Inr (p', dropped)"
    by (auto simp add: and_then_Inr)
  note e = update_energy [OF u]
  show ?case
  proof (cases dead)
    case True
    with r have "p' = q" by simp
    with e True show ?thesis by auto
  next
    case False
    with r have "Particle_steps g frames q = Inr (p', dropped)" by simp
    from Cons.IH [OF this] e(1) show ?thesis by simp
  qed
qed

text \<open>
  Claim C9. An \<open>update\<close> that returns leaves \<open>energy\<close> as it was, and its flag is true
  exactly if the new age exceeds \<open>max_age\<close> or the energy is not positive. Hence over
  any number of passes of the main loop the energy stays the same, and a particle with
  positive energy that the loop drops has an age above its \<open>max_age\<close>.
\<close>

theorem update_keeps_energy:
  "(Particle_update g force_fields p = Inr (p', dead) \<longrightarrow>
      p_energy p' = p_energy p \<and>
      (dead \<longleftrightarrow> p_age p + 1 > p_max_age p \<or> p_energy p \<le> 0)) \<and>
   (Particle_steps g frames q = Inr (q', dropped) \<longrightarrow>
      p_energy q' = p_energy q \<and>
      (0 < p_energy q \<and> dropped \<longrightarrow> p_age q' > p_max_age q'))"
  using update_energy(1,4) Particle_steps_energy by blast

lemma example_old_update:
  "Particle_update example_settings [] example_old = Inr (example_old_next, True)"
  using example_fast_update_at_age [of 600]
  by (simp add: example_old_def example_old_next_def)

lemma example_old_steps:
  "Particle_steps example_settings [[]] example_old = Inr (example_old_next, True)"
  by (simp add: example_old_update and_then_def)

theorem update_keeps_energy_witness:
  "Particle_update example_settings [] example_old = Inr (example_old_next, True) \<and>
   Particle_steps example_settings [[]] example_old = Inr (example_old_next, True) \<and>
   0 < p_energy example_old \<and>
   p_energy example_old_next = p_energy example_old \<and>
   p_age example_old + 1 > p_max_age example_old \<and>
   p_age example_old_next > p_max_age example_old_next"
proof -
  note t = update_keeps_energy [where g = example_settings and force_fields = "[]"
      and p = example_old and p' = example_old_next and dead = True and frames = "[[]]"
      and q = example_old and q' = example_old_next and dropped = True]
  have e: "0 < p_energy example_old"
    by (simp add: example_old_def example_fast_def example_particle_def)
  have c1: "p_energy example_old_next = p_energy example_old"
    using t example_old_update by blast
  have c2: "p_age example_old + 1 > p_max_age example_old"
    using t example_old_update e by auto
  have c3: "p_age example_old_next > p_max_age example_old_next"
    using t example_old_steps e by blast
  from example_old_update example_old_steps e c1 c2 c3 show ?thesis by blast
qed

subsection \<open>The charged flag\<close>

lemma field_acceleration_charged [simp]:
  "field_acceleration (p\<lparr>p_charged := b\<rparr>) field = field_acceleration p field"
  by (simp add: field_acceleration_def Let_def)

lemma update_force_fields_charged:
  "update_force_fields ffs (p\<lparr>p_charged := b\<rparr>) =
     and_then (update_force_fields ffs p) (\<lambda>q. Inr (q\<lparr>p_charged := b\<rparr>))"
proof (induction ffs arbitrary: p)
  case Nil
  show ?case by (simp add: and_then_def)
next
  case (Cons f ffs)
  show ?case
  proof (cases "field_acceleration p f")
    case (Inl e)
    then show ?thesis by (simp add: and_then_def)
  next
    case (Inr r)
    show ?thesis
    proof (cases r)
      case None
      with Inr Cons show ?thesis by simp
    next
      case (Some a)
      obtain ax ay where a: "a = (ax, ay)" by (cases a)
      have "p\<lparr>p_charged := b, p_vx := p_vx p + ax, p_vy := p_vy p + ay\<rparr> =
            p\<lparr>p_vx := p_vx p + ax, p_vy := p_vy p + ay, p_charged := b\<rparr>"
        by (cases p) simp
      then have "update_force_fields ffs (p\<lparr>p_charged := b, p_vx := p_vx p + ax, p_vy := p_vy p + ay\<rparr>) =
            update_force_fields ffs (p\<lparr>p_vx := p_vx p + ax, p_vy := p_vy p + ay\<rparr>\<lparr>p_charged := b\<rparr>)"
        by (rule arg_cong)
      also have "\<dots> = and_then
            (update_force_fields ffs (p\<lparr>p_vx := p_vx p + ax, p_vy := p_vy p + ay\<rparr>))
            (\<lambda>q. Inr (q\<lparr>p_charged := b\<rparr>))"
        by (rule Cons.IH)
      finally show ?thesis using Some a Inr by simp
    qed
  qed
qed

lemma update_stages_charged:
  "update_age_trail (p\<lparr>p_charged := b\<rparr>) = (update_age_trail p)\<lparr>p_charged := b\<rparr>"
  "update_turbulence g (p\<lparr>p_charged := b\<rparr>) = (update_turbulence g p)\<lparr>p_charged := b\<rparr>"
  "update_drag (p\<lparr>p_charged := b\<rparr>) = (update_drag p)\<lparr>p_charged := b\<rparr>"
  "update_speed_limit (p\<lparr>p_charged := b\<rparr>) = (update_speed_limit p)\<lparr>p_charged := b\<rparr>"
  "update_move (p\<lparr>p_charged := b\<rparr>) = (update_move p)\<lparr>p_charged := b\<rparr>"
  "update_bounds (p\<lparr>p_charged := b\<rparr>) = (update_bounds p)\<lparr>p_charged := b\<rparr>"
  by (simp_all add: update_age_trail_def update_turbulence_def update_drag_def
      update_speed_limit_def update_move_def update_bounds_def Let_def)

lemma update_energy_visuals_charged:
  "update_energy_visuals (p\<lparr>p_charged := b\<rparr>) =
     and_then (update_energy_visuals p) (\<lambda>q. Inr (q\<lparr>p_charged := b\<rparr>))"
  by (simp add: update_energy_visuals_def Let_def and_then_def)

lemma Particle_update_charged:
  "Particle_update g ffs (p\<lparr>p_charged := b\<rparr>) =
     and_then (Particle_update g ffs p) (\<lambda>(p', dead). Inr (p'\<lparr>p_charged := b\<rparr>, dead))"
proof (cases "update_force_fields ffs (update_turbulence g (update_age_trail p))")
  case (Inl e)
  then show ?thesis
    by (simp add: Particle_update_def update_stages_charged update_force_fields_charged
        and_then_def)
next
  case (Inr q)
  then show ?thesis
    by (cases "update_energy_visuals
          (update_bounds (update_move (update_speed_limit (update_drag q))))")
      (simp_all add: Particle_update_def update_stages_charged update_force_fields_charged
        update_energy_visuals_charged and_then_def)
qed

lemma Particle_init_charge:
  "Particle_init g x y particle_type d = Inr p \<Longrightarrow> p_charge p = - 1 \<or> p_charge p = 1"
proof -
  have "d_charge d mod 2 = 0 \<or> d_charge d mod 2 = 1" by auto
  moreover assume "Particle_init g x y particle_type d = Inr p"
  ultimately show ?thesis
    by (auto simp add: Particle_init_def Let_def split: option.splits)
qed

lemma magnetic_acceleration:
  assumes "f_field_type field \<noteq> ''gravity''" and "f_field_type field \<noteq> ''repulsion''"
    and "field_acceleration p field = Inr (Some (ax, ay))"
  shows "(let dx = f_x field - p_x p;
              dy = f_y field - p_y p;
              distance = sqrt (max 1 (dx * dx + dy * dy));
              force = f_strength field * real_of_int (p_charge p) / distance
          in ax = dx / distance * force * 0.8 \<and> ay = dy / distance * force * 0.8)"
  using assms
  by (auto simp add: field_acceleration_def Let_def max_def split: if_splits)

lemma field_acceleration_cong:
  assumes "p_x q = p_x p" and "p_y q = p_y p" and "p_mass q = p_mass p"
    and "p_charge q = p_charge p"
  shows "field_acceleration q field = field_acceleration p field"
  using assms by (simp add: field_acceleration_def Let_def)

lemma magnetic_in_range:
  assumes "f_field_type field \<noteq> ''gravity''" and "f_field_type field \<noteq> ''repulsion''"
    and "ForceField_is_near field (p_x p) (p_y p)" and "0 \<le> f_radius_sq field"
    and "sqrt (max 1 ((f_x field - p_x p) * (f_x field - p_x p) +
                      (f_y field - p_y p) * (f_y field - p_y p))) < sqrt (f_radius_sq field)"
  shows "field_acceleration p field =
     (let dx = f_x field - p_x p;
          dy = f_y field - p_y p;
          distance = sqrt (max 1 (dx * dx + dy * dy));
          force = f_strength field * real_of_int (p_charge p) / distance
      in Inr (Some (dx / distance * force * 0.8, dy / distance * force * 0.8)))"
  using assms
  by (auto simp add: field_acceleration_def Let_def max_def split: if_splits)

lemma kick_age_trail:
  "update_age_trail (p\<lparr>p_vx := vx, p_vy := vy\<rparr>) = (update_age_trail p)\<lparr>p_vx := vx, p_vy := vy\<rparr>"
  by (simp add: update_age_trail_def Let_def)
lemma kick_turbulence:
  "update_turbulence g (p\<lparr>p_vx := p_vx p + ax, p_vy := p_vy p + ay\<rparr>) =
   (update_turbulence g p)\<lparr>p_vx := p_vx (update_turbulence g p) + ax,
      p_vy := p_vy (update_turbulence g p) + ay\<rparr>"
  by (simp add: update_turbulence_def Let_def add.commute add.left_commute)
lemma age_trail_velocity: "p_vx (update_age_trail p) = p_vx p" "p_vy (update_age_trail p) = p_vy p"
  by (simp_all add: update_age_trail_def Let_def)
lemma kick_before_stages:
  "update_turbulence g (update_age_trail (p\<lparr>p_vx := p_vx p + ax, p_vy := p_vy p + ay\<rparr>)) =
   (update_turbulence g (update_age_trail p))
     \<lparr>p_vx := p_vx (update_turbulence g (update_age_trail p)) + ax,
      p_vy := p_vy (update_turbulence g (update_age_trail p)) + ay\<rparr>"
  using kick_turbulence [where g = g and p = "update_age_trail p" and ax = ax and ay = ay]
  by (simp add: kick_age_trail age_trail_velocity)

lemma field_acceleration_stages:
  "field_acceleration (update_turbulence g (update_age_trail p)) field =
   field_acceleration p field"
  by (rule field_acceleration_cong)
    (simp_all add: update_turbulence_def update_age_trail_def Let_def)

lemma Particle_update_kick:
  assumes "field_acceleration p field = Inr (Some (ax, ay))"
  shows "Particle_update g (field # ffs) p =
         Particle_update g ffs (p\<lparr>p_vx := p_vx p + ax, p_vy := p_vy p + ay\<rparr>)"
proof -
  let ?t = "update_turbulence g (update_age_trail p)"
  have "field_acceleration ?t field = Inr (Some (ax, ay))"
    using assms by (simp add: field_acceleration_stages)
  then have "update_force_fields (field # ffs) ?t =
             update_force_fields ffs (?t\<lparr>p_vx := p_vx ?t + ax, p_vy := p_vy ?t + ay\<rparr>)"
    by simp
  then show ?thesis
    by (simp only: Particle_update_def kick_before_stages)
qed

lemma kick_nonzero:
  fixes dx dy s :: real and c :: int
  assumes "c = 1 \<or> c = - 1" and "s \<noteq> 0" and "dx \<noteq> 0 \<or> dy \<noteq> 0" and "0 < t"
  shows "(dx / t * (s * real_of_int c / t) * 0.8, dy / t * (s * real_of_int c / t) * 0.8) \<noteq> (0, 0)"
  using assms by auto

text \<open>
  Claim C10. Every particle that \<open>__init__\<close> builds has charge \<open>-1\<close> or \<open>1\<close>, whatever
  its \<open>charged\<close> flag. A field that is neither \<open>gravity\<close> nor \<open>repulsion\<close> and reaches
  the particle (the loop body passes both \<open>continue\<close> statements) contributes the
  acceleration \<open>(dx / distance, dy / distance) * (strength * charge / distance) * 0.8\<close>
  to every particle, flag or no flag: the loop over the fields adds it to the velocity,
  so that \<open>update\<close> with this field first in the list is \<open>update\<close> of the particle with
  the velocity so changed, and for charge \<open>-1\<close> or \<open>1\<close>, a strength other than zero and
  a particle off the centre of the field it is not zero. The acceleration from any field
  is the same with the flag set and cleared, and \<open>update\<close> neither reads nor writes the
  flag: setting it before the call or after the call gives the same result. Only
  \<open>draw\<close> reads it, to paint the charge marker.
\<close>

theorem magnetic_field_accelerates_every_particle:
  "(Particle_init g x y particle_type d = Inr p0 \<longrightarrow> p_charge p0 = - 1 \<or> p_charge p0 = 1) \<and>
   (f_field_type field \<noteq> ''gravity'' \<and> f_field_type field \<noteq> ''repulsion'' \<and>
    ForceField_is_near field (p_x p) (p_y p) \<and> 0 \<le> f_radius_sq field \<and>
    sqrt (max 1 ((f_x field - p_x p) * (f_x field - p_x p) +
                 (f_y field - p_y p) * (f_y field - p_y p))) < sqrt (f_radius_sq field) \<longrightarrow>
      (let dx = f_x field - p_x p;
           dy = f_y field - p_y p;
           distance = sqrt (max 1 (dx * dx + dy * dy));
           force = f_strength field * real_of_int (p_charge p) / distance;
           ax = dx / distance * force * 0.8;
           ay = dy / distance * force * 0.8
       in field_acceleration p field = Inr (Some (ax, ay)) \<and>
          update_force_fields (field # force_fields) p =
            update_force_fields force_fields (p\<lparr>p_vx := p_vx p + ax, p_vy := p_vy p + ay\<rparr>) \<and>
          Particle_update g (field # force_fields) p =
            Particle_update g force_fields (p\<lparr>p_vx := p_vx p + ax, p_vy := p_vy p + ay\<rparr>) \<and>
          ((p_charge p = 1 \<or> p_charge p = - 1) \<and> f_strength field \<noteq> 0 \<and>
           (f_x field, f_y field) \<noteq> (p_x p, p_y p) \<longrightarrow> (ax, ay) \<noteq> (0, 0)))) \<and>
   (f_field_type field \<noteq> ''gravity'' \<and> f_field_type field \<noteq> ''repulsion'' \<and>
    field_acceleration p field = Inr (Some (bx, by0)) \<longrightarrow>
      (let dx = f_x field - p_x p;
           dy = f_y field - p_y p;
           distance = sqrt (max 1 (dx * dx + dy * dy));
           force = f_strength field * real_of_int (p_charge p) / distance
       in bx = dx / distance * force * 0.8 \<and> by0 = dy / distance * force * 0.8)) \<and>
   field_acceleration (p\<lparr>p_charged := b\<rparr>) field = field_acceleration p field \<and>
   Particle_update g force_fields (p\<lparr>p_charged := b\<rparr>) =
     and_then (Particle_update g force_fields p)
       (\<lambda>(p', dead). Inr (p'\<lparr>p_charged := b\<rparr>, dead)) \<and>
   (draw_charge_marker p = None \<longleftrightarrow> \<not> p_charged p)"
proof (intro conjI impI)
  assume "Particle_init g x y particle_type d = Inr p0"
  then show "p_charge p0 = - 1 \<or> p_charge p0 = 1" by (rule Particle_init_charge)
next
  let ?dx = "f_x field - p_x p" and ?dy = "f_y field - p_y p"
  let ?t = "sqrt (max 1 (?dx * ?dx + ?dy * ?dy))"
  let ?force = "f_strength field * real_of_int (p_charge p) / ?t"
  let ?ax = "?dx / ?t * ?force * 0.8" and ?ay = "?dy / ?t * ?force * 0.8"
  assume "f_field_type field \<noteq> ''gravity'' \<and> f_field_type field \<noteq> ''repulsion'' \<and>
    ForceField_is_near field (p_x p) (p_y p) \<and> 0 \<le> f_radius_sq field \<and>
    ?t < sqrt (f_radius_sq field)"
  then have a: "field_acceleration p field = Inr (Some (?ax, ?ay))"
    using magnetic_in_range [of field p] by (simp add: Let_def)
  have u: "update_force_fields (field # force_fields) p =
            update_force_fields force_fields (p\<lparr>p_vx := p_vx p + ?ax, p_vy := p_vy p + ?ay\<rparr>)"
    using a by simp
  have k: "Particle_update g (field # force_fields) p =
            Particle_update g force_fields (p\<lparr>p_vx := p_vx p + ?ax, p_vy := p_vy p + ?ay\<rparr>)"
    using a by (rule Particle_update_kick)
  have t: "0 < ?t" by (simp add: max_def)
  have n: "(p_charge p = 1 \<or> p_charge p = - 1) \<and> f_strength field \<noteq> 0 \<and>
           (f_x field, f_y field) \<noteq> (p_x p, p_y p) \<longrightarrow> (?ax, ?ay) \<noteq> (0, 0)"
  proof
    assume h: "(p_charge p = 1 \<or> p_charge p = - 1) \<and> f_strength field \<noteq> 0 \<and>
           (f_x field, f_y field) \<noteq> (p_x p, p_y p)"
    then have "?dx \<noteq> 0 \<or> ?dy \<noteq> 0" by auto
    with h t show "(?ax, ?ay) \<noteq> (0, 0)"
      by (intro kick_nonzero) simp_all
  qed
  from a u k n show "let dx = f_x field - p_x p;
           dy = f_y field - p_y p;
           distance = sqrt (max 1 (dx * dx + dy * dy));
           force = f_strength field * real_of_int (p_charge p) / distance;
           ax = dx / distance * force * 0.8;
           ay = dy / distance * force * 0.8
       in field_acceleration p field = Inr (Some (ax, ay)) \<and>
          update_force_fields (field # force_fields) p =
            update_force_fields force_fields (p\<lparr>p_vx := p_vx p + ax, p_vy := p_vy p + ay\<rparr>) \<and>
          Particle_update g (field # force_fields) p =
            Particle_update g force_fields (p\<lparr>p_vx := p_vx p + ax, p_vy := p_vy p + ay\<rparr>) \<and>
          ((p_charge p = 1 \<or> p_charge p = - 1) \<and> f_strength field \<noteq> 0 \<and>
           (f_x field, f_y field) \<noteq> (p_x p, p_y p) \<longrightarrow> (ax, ay) \<noteq> (0, 0))"
    unfolding Let_def by blast
next
  assume "f_field_type field \<noteq> ''gravity'' \<and> f_field_type field \<noteq> ''repulsion'' \<and>
    field_acceleration p field = Inr (Some (bx, by0))"
  then show "let dx = f_x field - p_x p;
           dy = f_y field - p_y p;
           distance = sqrt (max 1 (dx * dx + dy * dy));
           force = f_strength field * real_of_int (p_charge p) / distance
       in bx = dx / distance * force * 0.8 \<and> by0 = dy / distance * force * 0.8"
    using magnetic_acceleration [of field p bx by0] by blast
next
  show "field_acceleration (p\<lparr>p_charged := b\<rparr>) field = field_acceleration p field"
    by simp
next
  show "Particle_update g force_fields (p\<lparr>p_charged := b\<rparr>) =
     and_then (Particle_update g force_fields p)
       (\<lambda>(p', dead). Inr (p'\<lparr>p_charged := b\<rparr>, dead))"
    by (rule Particle_update_charged)
next
  show "draw_charge_marker p = None \<longleftrightarrow> \<not> p_charged p"
    by (simp add: draw_charge_marker_def Let_def)
qed

lemma example_uncharged_init:
  "Particle_init example_settings 500 350 ''NORMAL'' example_uncharged_draws =
     Inr example_uncharged"
  by (simp add: Particle_init_def PARTICLE_TYPES_def example_settings_def example_draws_def
      example_uncharged_draws_def example_uncharged_def example_particle_def)

lemma example_uncharged_in_range:
  "f_field_type example_magnetic \<noteq> ''gravity'' \<and>
   f_field_type example_magnetic \<noteq> ''repulsion'' \<and>
   ForceField_is_near example_magnetic (p_x example_uncharged) (p_y example_uncharged) \<and>
   0 \<le> f_radius_sq example_magnetic \<and>
   sqrt (max 1 ((f_x example_magnetic - p_x example_uncharged) *
                (f_x example_magnetic - p_x example_uncharged) +
                (f_y example_magnetic - p_y example_uncharged) *
                (f_y example_magnetic - p_y example_uncharged)))
     < sqrt (f_radius_sq example_magnetic)"
  by (simp add: example_magnetic_def ForceField_init_def ForceField_is_near_def
      example_uncharged_def example_particle_def sqrt_25 sqrt_8100)

lemma example_uncharged_kicked_update:
  "Particle_update example_settings []
     (example_uncharged\<lparr>p_vx := 0.116, p_vy := - 0.762\<rparr>) =
   Inr (example_uncharged_next, False)"
  by (simp add: update_defs example_settings_def example_particle_def example_uncharged_def
      example_uncharged_next_def)

theorem magnetic_field_accelerates_every_particle_witness:
  "Particle_init example_settings 500 350 ''NORMAL'' example_uncharged_draws =
     Inr example_uncharged \<and>
   p_charge example_uncharged = - 1 \<and> \<not> p_charged example_uncharged \<and>
   (f_field_type example_magnetic \<noteq> ''gravity'' \<and>
    f_field_type example_magnetic \<noteq> ''repulsion'' \<and>
    ForceField_is_near example_magnetic (p_x example_uncharged) (p_y example_uncharged) \<and>
    0 \<le> f_radius_sq example_magnetic \<and>
    sqrt (max 1 ((f_x example_magnetic - p_x example_uncharged) *
                 (f_x example_magnetic - p_x example_uncharged) +
                 (f_y example_magnetic - p_y example_uncharged) *
                 (f_y example_magnetic - p_y example_uncharged)))
      < sqrt (f_radius_sq example_magnetic)) \<and>
   field_acceleration example_uncharged example_magnetic = Inr (Some (- 0.384, - 0.512)) \<and>
   update_force_fields [example_magnetic] example_uncharged =
     Inr (example_uncharged\<lparr>p_vx := 0.116, p_vy := - 0.762\<rparr>) \<and>
   Particle_update example_settings [example_magnetic] example_uncharged =
     Inr (example_uncharged_next, False) \<and>
   p_vx example_uncharged_next = 0.11368 \<and> p_vy example_uncharged_next = - 0.74676"
proof -
  note t = magnetic_field_accelerates_every_particle [where g = example_settings
      and x = 500 and y = 350 and particle_type = "''NORMAL''"
      and d = example_uncharged_draws and ?p0.0 = example_uncharged
      and p = example_uncharged and b = True and field = example_magnetic
      and force_fields = "[]"]
  have c: "p_charge example_uncharged = - 1" "\<not> p_charged example_uncharged"
    by (simp_all add: example_uncharged_def)
  have n: "f_x example_magnetic - p_x example_uncharged = 3"
    "f_y example_magnetic - p_y example_uncharged = 4"
    "f_strength example_magnetic = 4" "p_vx example_uncharged = 0.5"
    "p_vy example_uncharged = - 0.25"
    by (simp_all add: example_magnetic_def ForceField_init_def example_uncharged_def
        example_particle_def)
  from t example_uncharged_in_range
  have "let dx = f_x example_magnetic - p_x example_uncharged;
           dy = f_y example_magnetic - p_y example_uncharged;
           distance = sqrt (max 1 (dx * dx + dy * dy));
           force = f_strength example_magnetic * real_of_int (p_charge example_uncharged) /
                   distance;
           ax = dx / distance * force * 0.8;
           ay = dy / distance * force * 0.8
       in field_acceleration example_uncharged example_magnetic = Inr (Some (ax, ay)) \<and>
          update_force_fields [example_magnetic] example_uncharged =
            update_force_fields [] (example_uncharged
              \<lparr>p_vx := p_vx example_uncharged + ax, p_vy := p_vy example_uncharged + ay\<rparr>) \<and>
          Particle_update example_settings [example_magnetic] example_uncharged =
            Particle_update example_settings [] (example_uncharged
              \<lparr>p_vx := p_vx example_uncharged + ax, p_vy := p_vy example_uncharged + ay\<rparr>)"
    unfolding Let_def by blast
  then have a: "field_acceleration example_uncharged example_magnetic =
        Inr (Some (- 0.384, - 0.512))"
    and u: "update_force_fields [example_magnetic] example_uncharged =
        Inr (example_uncharged\<lparr>p_vx := 0.116, p_vy := - 0.762\<rparr>)"
    and k: "Particle_update example_settings [example_magnetic] example_uncharged =
        Particle_update example_settings [] (example_uncharged\<lparr>p_vx := 0.116, p_vy := - 0.762\<rparr>)"
    by (simp_all add: Let_def n c sqrt_25)
  have v: "p_vx example_uncharged_next = 0.11368" "p_vy example_uncharged_next = - 0.74676"
    by (simp_all add: example_uncharged_next_def)
  from example_uncharged_init c example_uncharged_in_range a u k
    example_uncharged_kicked_update v
  show ?thesis by simp
qed


subsection \<open>Explosions\<close>

lemma example_shard_draws_ok: "shard_draws_ok (example_shard_draws i)"
  by (simp add: shard_draws_ok_def example_shard_draws_def init_draws_ok_def example_draws_def)

lemma Particle_setattr_slot:
  "name \<in> set Particle_slots \<Longrightarrow> Particle_setattr name upd p = Inr (upd p)"
  by (simp add: Particle_setattr_def)

lemma Particle_setattr_drag: "Particle_setattr ''drag'' upd p = Inl AttributeError"
  by (simp add: Particle_setattr_def Particle_slots_def)

lemma explosion_shard_raises: "\<exists>e. explosion_shard g x y color d = Inl e"
  by (cases "shard_until_energy g x y color d")
    (simp_all add: explosion_shard_def and_then_def Particle_setattr_drag)

lemma example_shard_until_energy:
  "shard_until_energy example_settings 500 350 [10, 200, 255] (example_shard_draws 0) =
     Inr example_shard"
  by (simp add: shard_until_energy_def Particle_init_def PARTICLE_TYPES_def and_then_def
      Particle_setattr_def Particle_slots_def shard_color_def example_shard_draws_def
      example_draws_def example_settings_def example_shard_def)

lemma create_explosion_at_never_returns:
  assumes "0 < count"
  shows "\<exists>e. create_explosion_at g x y color count draws particles = Inl e"
proof -
  from assms have "[0..<nat count] = 0 # [1..<nat count]"
    by (simp add: upt_rec [of 0])
  moreover obtain e where "explosion_shard g x y color (draws 0) = Inl e"
    using explosion_shard_raises by blast
  ultimately show ?thesis
    by (simp add: create_explosion_at_def and_then_def)
qed

lemma explosion_shard_AttributeError:
  assumes "3 \<le> length color"
  shows "explosion_shard g x y color d = Inl AttributeError"
  using assms
  by (simp add: explosion_shard_def shard_until_energy_def Particle_init_def
      PARTICLE_TYPES_def and_then_def Particle_setattr_def Particle_slots_def
      shard_color_def Let_def)

text \<open>
  Claim C1 says that no operation of the core raises, \<open>create_explosion_at\<close> in
  particular. The code does raise: \<open>drag\<close> is not among the slots of \<open>Particle\<close>, so
  \<open>p.drag = 0.90\<close> raises AttributeError in the first pass of the loop. Here the call
  that the main loop makes for a clicked particle,
  \<open>create_explosion_at(closest.x, closest.y, closest.color)\<close>, is evaluated.
\<close>

theorem create_explosion_at_raises:
  "create_explosion_at example_settings (p_x example_particle) (p_y example_particle)
     (p_color example_particle) 15 example_shard_draws [example_particle] =
   Inl AttributeError"
  by (simp add: create_explosion_at_def upt_rec [of 0] explosion_shard_def
      shard_until_energy_def Particle_init_def PARTICLE_TYPES_def and_then_def
      Particle_setattr_def Particle_slots_def shard_color_def example_shard_draws_def
      example_draws_def example_settings_def example_particle_def)

text \<open>
  Claim C2 says that an explosion with \<open>count = 15\<close> appends exactly 15 particles of
  kind LIGHT. The code raises AttributeError before the first \<open>append\<close>, so the call
  returns no list at all.
\<close>

theorem explosion_appends_no_shard:
  "create_explosion_at example_settings 500 350 [150, 255, 100] 15 example_shard_draws [] =
   Inl AttributeError"
  by (simp add: create_explosion_at_def upt_rec [of 0] explosion_shard_def
      shard_until_energy_def Particle_init_def PARTICLE_TYPES_def and_then_def
      Particle_setattr_def Particle_slots_def shard_color_def example_shard_draws_def
      example_draws_def example_settings_def)

text \<open>
  Claim C3 says that \<open>update\<close> multiplies the velocity of a shard by the override
  \<open>0.90\<close>. In the code the assignment of the override raises, and \<open>update\<close> reads
  the drag from \<open>type_data\<close> only: a particle in the state that the loop body has built
  when it reaches line 344 leaves \<open>update\<close> with its velocity multiplied by \<open>0.96\<close>,
  the coefficient of LIGHT.
\<close>

theorem shard_update_applies_kind_drag:
  "shard_until_energy example_settings 500 350 [10, 200, 255] (example_shard_draws 0) =
     Inr example_shard \<and>
   explosion_shard example_settings 500 350 [10, 200, 255] (example_shard_draws 0) =
     Inl AttributeError \<and>
   Particle_update example_settings [] example_shard = Inr (example_shard_next, False) \<and>
   p_vx example_shard = 2 \<and> p_vx example_shard_next = 2 * 0.96 \<and>
   p_vx example_shard_next \<noteq> 2 * 0.90"
proof -
  have u: "Particle_update example_settings [] example_shard = Inr (example_shard_next, False)"
    by (simp add: update_defs example_settings_def example_shard_def example_shard_next_def)
      (simp add: Let_def)
  have r: "explosion_shard example_settings 500 350 [10, 200, 255] (example_shard_draws 0) =
     Inl AttributeError"
    by (simp add: explosion_shard_def example_shard_until_energy and_then_def
        Particle_setattr_drag)
  show ?thesis
    by (simp add: u r example_shard_until_energy)
      (simp add: example_shard_def example_shard_next_def)
qed

text \<open>
  Claim C4 says that every channel of a shard colour lies in \<open>[0, 255]\<close>. The code
  bounds a channel from above only, by \<open>min(255, ...)\<close>: the channel 10 with the offset
  \<open>-30\<close> becomes \<open>-20\<close>.
\<close>

theorem shard_color_below_zero:
  "shard_color [10, 200, 255] (- 30) 0 30 = Inr [- 20, 200, 255] \<and>
   and_then (shard_until_energy example_settings 500 350 [10, 200, 255] (example_shard_draws 0))
     (\<lambda>p. Inr (p_color p)) = Inr [- 20, 200, 255]"
  by (simp add: shard_color_def example_shard_until_energy and_then_def example_shard_def)

end
